theory Spec2Isabelle
  imports
    Complex_Main
    "HOL-Library.Char_ord"
    "HOL-Library.List_Lexorder"
    "HOL-Library.Product_Lexorder"
    "HOL-Library.Multiset"
begin

section \<open>Values of the host language\<close>

text \<open>
  The services are TypeScript classes of static async methods over a Firestore database.
  A JavaScript \<open>number\<close> is an IEEE double; its value is modelled as a \<open>real\<close>.
  The host's arithmetic on doubles rounds, so the sum and the product that the services
  compute are not the exact ones in general (\<open>3 * 0.15\<close> is \<open>0.44999999999999996\<close>):
  the host's addition and multiplication are parameters (\<open>fadd\<close>, \<open>fmul\<close>) of the
  operations that use them, as the host's date parsing is. A number literal is written
  with its decimal value, and the parameter stands for the host's operation on it.
  A string is a \<open>string\<close>, a server or client time a natural number.
  A thrown \<open>Error\<close> carries its message and, for store errors, a code.
\<close>

type_synonym doc_id = string
type_synonym timestamp = nat
type_synonym 'd coll = "(doc_id \<times> 'd) list"

datatype js_error = JsError (err_message: string) (err_code: "string option")

text \<open>\<open>throw new Error(`prefix${error.message}`)\<close> in a catch block.\<close>

definition rethrow :: "string \<Rightarrow> js_error \<Rightarrow> js_error" where
  "rethrow prefix e = JsError (prefix @ err_message e) None"

text \<open>\<open>x || d\<close> on a string field (absent and the empty string are falsy) and on a
  number field (absent and zero are falsy).\<close>

definition or_str :: "string option \<Rightarrow> string \<Rightarrow> string" where
  "or_str v d = (case v of None \<Rightarrow> d | Some s \<Rightarrow> if s = [] then d else s)"

definition or_num :: "real option \<Rightarrow> real \<Rightarrow> real" where
  "or_num v d = (case v of None \<Rightarrow> d | Some x \<Rightarrow> if x = 0 then d else x)"

text \<open>\<open>x || null\<close> and the test \<open>if (x)\<close> on an optional string argument.\<close>

definition or_null :: "string option \<Rightarrow> string option" where
  "or_null v = (case v of None \<Rightarrow> None | Some s \<Rightarrow> if s = [] then None else Some s)"

definition truthy :: "string option \<Rightarrow> bool" where
  "truthy v = (case v of None \<Rightarrow> False | Some s \<Rightarrow> s \<noteq> [])"

text \<open>\<open>s.includes(sub)\<close>.\<close>

fun starts_with :: "string \<Rightarrow> string \<Rightarrow> bool" where
  "starts_with s [] = True"
| "starts_with [] (c # cs) = False"
| "starts_with (x # xs) (c # cs) = (x = c \<and> starts_with xs cs)"

fun str_includes :: "string \<Rightarrow> string \<Rightarrow> bool" where
  "str_includes [] sub = (sub = [])"
| "str_includes (x # xs) sub = (starts_with (x # xs) sub \<or> str_includes xs sub)"

text \<open>
  \<open>Array.prototype.sort(compareFn)\<close>: a stable sort by a comparator. The comparator
  returns a number or NaN (\<open>None\<close>); the language takes NaN as \<open>+0\<close>. For a consistent
  comparator every stable sort returns the same array, so insertion is used. For an
  inconsistent comparator (possible only when a date fails to parse) the order is
  implementation-defined: there the order of the model need not be the order of a given
  engine, and nothing below relies on it.
\<close>

fun insertBy :: "('a \<Rightarrow> 'a \<Rightarrow> real option) \<Rightarrow> 'a \<Rightarrow> 'a list \<Rightarrow> 'a list" where
  "insertBy cmp x [] = [x]"
| "insertBy cmp x (y # ys) =
     (if (case cmp x y of None \<Rightarrow> 0 | Some v \<Rightarrow> v) \<le> 0 then x # y # ys
      else y # insertBy cmp x ys)"

definition js_sort :: "('a \<Rightarrow> 'a \<Rightarrow> real option) \<Rightarrow> 'a list \<Rightarrow> 'a list" where
  "js_sort cmp xs = foldr (insertBy cmp) xs []"

text \<open>
  The comparator \<open>(a, b) => new Date(b.date).getTime() - new Date(a.date).getTime()\<close>.
  Date parsing is a builtin of the host; it is a parameter \<open>gt\<close> of the model, \<open>None\<close>
  standing for NaN (an invalid date). The sort only uses the sign of the difference,
  which rounding keeps.
\<close>

definition date_desc :: "(string \<Rightarrow> real option) \<Rightarrow> ('a \<Rightarrow> string) \<Rightarrow> 'a \<Rightarrow> 'a \<Rightarrow> real option" where
  "date_desc gt date_of a b =
     (case (gt (date_of b), gt (date_of a)) of
        (Some tb, Some ta) \<Rightarrow> Some (tb - ta)
      | _ \<Rightarrow> None)"

text \<open>
  An instance of the parser, for evaluating the model on concrete dates. On a valid
  calendar date \<open>YYYY-MM-DD\<close>, the format that the services write
  (\<open>new Date().toISOString().split('T')[0]\<close>), it gives what the host gives: the
  milliseconds since the epoch at UTC midnight. On every other string it gives \<open>None\<close>,
  which is not what every engine does (some roll a day beyond the month's length over
  into the next month, and accept other formats); it is used at valid dates only.
\<close>

definition digit :: "char \<Rightarrow> int option" where
  "digit c = (let n = (of_char c :: nat) in if 48 \<le> n \<and> n \<le> 57 then Some (int n - 48) else None)"

fun digits :: "string \<Rightarrow> int option" where
  "digits [] = Some 0"
| "digits (c # cs) =
     (case (digit c, digits cs) of
        (Some d, Some r) \<Rightarrow> Some (d * 10 ^ length cs + r)
      | _ \<Rightarrow> None)"

definition leap_year :: "int \<Rightarrow> bool" where
  "leap_year y = (y mod 4 = 0 \<and> (y mod 100 \<noteq> 0 \<or> y mod 400 = 0))"

definition days_in_month :: "int \<Rightarrow> int \<Rightarrow> int" where
  "days_in_month y m =
     (if m = 2 then (if leap_year y then 29 else 28)
      else if m = 4 \<or> m = 6 \<or> m = 9 \<or> m = 11 then 30 else 31)"

definition days_from_civil :: "int \<Rightarrow> int \<Rightarrow> int \<Rightarrow> int" where
  "days_from_civil y m d =
     (let y' = (if m \<le> 2 then y - 1 else y);
          era = y' div 400;
          yoe = y' - era * 400;
          mp = (m + 9) mod 12;
          doy = (153 * mp + 2) div 5 + d - 1;
          doe = yoe * 365 + yoe div 4 - yoe div 100 + doy
      in era * 146097 + doe - 719468)"

definition iso_getTime :: "string \<Rightarrow> real option" where
  "iso_getTime s =
     (if length s = 10 \<and> s ! 4 = CHR ''-'' \<and> s ! 7 = CHR ''-'' then
        (case (digits (take 4 s), digits (take 2 (drop 5 s)), digits (drop 8 s)) of
           (Some y, Some m, Some d) \<Rightarrow>
             if 1 \<le> m \<and> m \<le> 12 \<and> 1 \<le> d \<and> d \<le> days_in_month y m
             then Some (of_int (days_from_civil y m d * 86400000))
             else None
         | _ \<Rightarrow> None)
      else None)"

section \<open>Documents and the database\<close>

text \<open>
  Documents are schemaless in the store; a field that the code guards against being
  absent is an \<open>option\<close> (\<open>null\<close> and absent are not told apart). Only the fields that the
  modelled operations read or write are kept.
\<close>

record user_doc =
  u_role :: "string option"
  u_name :: "string option"
  u_email :: "string option"
  u_currentBalance :: "real option"
  u_accountStatus :: "string option"
  u_updatedAt :: "timestamp option"

record txn_doc =
  t_investorId :: "string option"
  t_type :: "string option"
  t_amount :: "real option"
  t_date :: "string option"
  t_status :: "string option"
  t_description :: "string option"
  t_createdAt :: "timestamp option"
  t_updatedAt :: "timestamp option"

record wr_doc =
  w_investorId :: string
  w_investorName :: string
  w_amount :: real
  w_date :: "string option"
  w_status :: "string option"
  w_approvalDate :: "timestamp option"
  w_processedBy :: "string option"
  w_processedAt :: "timestamp option"
  w_reason :: "string option"
  w_w8benStatus :: "string option"
  w_w8benApprovedAt :: "timestamp option"
  w_w8benRejectionReason :: "string option"
  w_createdAt :: "timestamp option"
  w_updatedAt :: "timestamp option"

record comm_doc =
  c_investorId :: string
  c_investorName :: string
  c_withdrawalAmount :: real
  c_commissionRate :: real
  c_commissionAmount :: real
  c_date :: string
  c_status :: string
  c_withdrawalId :: doc_id
  c_createdAt :: "timestamp option"

datatype role = Admin | Affiliate

datatype priority = Low | Medium | High

record conv_doc =
  cv_participants :: "string list"
  cv_participantNames :: "string list"
  cv_participantRoles :: "string list"
  cv_lastMessage :: string
  cv_lastMessageTime :: "timestamp option"
  cv_adminId :: string
  cv_affiliateId :: string
  cv_createdAt :: "timestamp option"
  cv_updatedAt :: "timestamp option"

record msg_doc =
  m_senderId :: string
  m_senderName :: string
  m_senderRole :: role
  m_content :: string
  m_timestamp :: "timestamp option"
  m_conversationId :: doc_id
  m_replyTo :: "string option"
  m_priority :: priority
  m_status :: string
  m_createdAt :: "timestamp option"

text \<open>
  The world is the database (one association list per collection, keyed by document id),
  the server clock that stamps \<open>serverTimestamp()\<close>, the client's calendar date
  (\<open>new Date().toISOString().split('T')[0]\<close>), and the outcomes of the store calls still
  to come: \<open>Some e\<close> makes the next call reject with \<open>e\<close>, \<open>None\<close> lets it through, and
  an empty list means that every further call goes through.
\<close>

record world =
  users :: "user_doc coll"
  transactions :: "txn_doc coll"
  withdrawalRequests :: "wr_doc coll"
  commissions :: "comm_doc coll"
  conversations :: "conv_doc coll"
  affiliateMessages :: "msg_doc coll"
  clock :: timestamp
  today :: string
  faults :: "js_error option list"

datatype 'd collref = CollRef (getC: "world \<Rightarrow> 'd coll") (putC: "'d coll \<Rightarrow> world \<Rightarrow> world")

definition users_ref :: "user_doc collref" where
  "users_ref = CollRef users (\<lambda>c w. w\<lparr>users := c\<rparr>)"

definition transactions_ref :: "txn_doc collref" where
  "transactions_ref = CollRef transactions (\<lambda>c w. w\<lparr>transactions := c\<rparr>)"

definition withdrawalRequests_ref :: "wr_doc collref" where
  "withdrawalRequests_ref = CollRef withdrawalRequests (\<lambda>c w. w\<lparr>withdrawalRequests := c\<rparr>)"

definition commissions_ref :: "comm_doc collref" where
  "commissions_ref = CollRef commissions (\<lambda>c w. w\<lparr>commissions := c\<rparr>)"

definition conversations_ref :: "conv_doc collref" where
  "conversations_ref = CollRef conversations (\<lambda>c w. w\<lparr>conversations := c\<rparr>)"

definition affiliateMessages_ref :: "msg_doc collref" where
  "affiliateMessages_ref = CollRef affiliateMessages (\<lambda>c w. w\<lparr>affiliateMessages := c\<rparr>)"

subsection \<open>The store calls\<close>

text \<open>
  The calls of the \<open>firebase/firestore\<close> client that the services use, as the client
  documents them. Each call takes the next outcome. A write commits at the server time
  and the clock moves on. \<open>updateDoc\<close> rejects with \<open>not-found\<close> when the document does
  not exist; \<open>setDoc\<close> creates or replaces; \<open>addDoc\<close> creates under a new id (random in
  the store; the model only keeps that it is not in use). A query without \<open>orderBy\<close>
  lists the matching documents by ascending id; \<open>orderBy(field, 'desc')\<close> lists the
  matching documents that have the field, by descending field value and then
  descending id.
\<close>

definition next_outcome :: "world \<Rightarrow> js_error option \<times> world" where
  "next_outcome w = (case faults w of [] \<Rightarrow> (None, w) | f # fs \<Rightarrow> (f, w\<lparr>faults := fs\<rparr>))"

definition tick :: "world \<Rightarrow> world" where
  "tick w = w\<lparr>clock := Suc (clock w)\<rparr>"

definition not_found :: js_error where
  "not_found = JsError ''No document to update'' (Some ''not-found'')"

definition newId :: "doc_id list \<Rightarrow> doc_id" where
  "newId ids = replicate (Suc (foldr max (map length ids) 0)) (CHR ''A'')"

definition replace_doc :: "doc_id \<Rightarrow> 'd \<Rightarrow> 'd coll \<Rightarrow> 'd coll" where
  "replace_doc i v c = map (\<lambda>(j, x). if j = i then (j, v) else (j, x)) c"

definition getDoc :: "'d collref \<Rightarrow> doc_id \<Rightarrow> world \<Rightarrow> (js_error + 'd option) \<times> world" where
  "getDoc r i w =
     (case next_outcome w of
        (Some e, w') \<Rightarrow> (Inl e, w')
      | (None, w') \<Rightarrow> (Inr (map_of (getC r w') i), w'))"

definition updateDoc ::
  "'d collref \<Rightarrow> doc_id \<Rightarrow> (timestamp \<Rightarrow> 'd \<Rightarrow> 'd) \<Rightarrow> world \<Rightarrow> (js_error + unit) \<times> world" where
  "updateDoc r i f w =
     (case next_outcome w of
        (Some e, w') \<Rightarrow> (Inl e, w')
      | (None, w') \<Rightarrow>
          (case map_of (getC r w') i of
             None \<Rightarrow> (Inl not_found, w')
           | Some d \<Rightarrow> (Inr (), tick (putC r (replace_doc i (f (clock w') d) (getC r w')) w'))))"

definition setDoc ::
  "'d collref \<Rightarrow> doc_id \<Rightarrow> (timestamp \<Rightarrow> 'd) \<Rightarrow> world \<Rightarrow> (js_error + unit) \<times> world" where
  "setDoc r i mk w =
     (case next_outcome w of
        (Some e, w') \<Rightarrow> (Inl e, w')
      | (None, w') \<Rightarrow>
          (case map_of (getC r w') i of
             None \<Rightarrow> (Inr (), tick (putC r (getC r w' @ [(i, mk (clock w'))]) w'))
           | Some d \<Rightarrow> (Inr (), tick (putC r (replace_doc i (mk (clock w')) (getC r w')) w'))))"

definition addDoc ::
  "'d collref \<Rightarrow> (timestamp \<Rightarrow> 'd) \<Rightarrow> world \<Rightarrow> (js_error + doc_id) \<times> world" where
  "addDoc r mk w =
     (case next_outcome w of
        (Some e, w') \<Rightarrow> (Inl e, w')
      | (None, w') \<Rightarrow>
          (let i = newId (map fst (getC r w'))
           in (Inr i, tick (putC r (getC r w' @ [(i, mk (clock w'))]) w'))))"

definition deleteDoc :: "'d collref \<Rightarrow> doc_id \<Rightarrow> world \<Rightarrow> (js_error + unit) \<times> world" where
  "deleteDoc r i w =
     (case next_outcome w of
        (Some e, w') \<Rightarrow> (Inl e, w')
      | (None, w') \<Rightarrow> (Inr (), tick (putC r (filter (\<lambda>(j, x). j \<noteq> i) (getC r w')) w')))"

definition unordered :: "(doc_id \<times> 'd \<Rightarrow> bool) \<Rightarrow> 'd coll \<Rightarrow> 'd coll" where
  "unordered P c = sort_key fst (filter P c)"

definition ordered_desc :: "('d \<Rightarrow> string option) \<Rightarrow> (doc_id \<times> 'd \<Rightarrow> bool) \<Rightarrow> 'd coll \<Rightarrow> 'd coll" where
  "ordered_desc field P c =
     map snd (rev (sort_key fst
       (List.map_filter (\<lambda>(i, d). map_option (\<lambda>k. ((k, i), (i, d))) (field d)) (filter P c))))"

definition getDocs ::
  "'d collref \<Rightarrow> (doc_id \<times> 'd \<Rightarrow> bool) \<Rightarrow> world \<Rightarrow> (js_error + 'd coll) \<times> world" where
  "getDocs r P w =
     (case next_outcome w of
        (Some e, w') \<Rightarrow> (Inl e, w')
      | (None, w') \<Rightarrow> (Inr (unordered P (getC r w')), w'))"

definition getDocs_orderBy_desc ::
  "'d collref \<Rightarrow> (doc_id \<times> 'd \<Rightarrow> bool) \<Rightarrow> ('d \<Rightarrow> string option) \<Rightarrow> world
     \<Rightarrow> (js_error + 'd coll) \<times> world" where
  "getDocs_orderBy_desc r P field w =
     (case next_outcome w of
        (Some e, w') \<Rightarrow> (Inl e, w')
      | (None, w') \<Rightarrow> (Inr (ordered_desc field P (getC r w')), w'))"

text \<open>Sequencing of awaited calls, and a \<open>try { ... } catch (error) { throw new Error(...) }\<close>
  around a method body.\<close>

definition andThen ::
  "(js_error + 'a) \<times> world \<Rightarrow> ('a \<Rightarrow> world \<Rightarrow> (js_error + 'b) \<times> world)
     \<Rightarrow> (js_error + 'b) \<times> world" where
  "andThen r k = (case r of (Inl e, w) \<Rightarrow> (Inl e, w) | (Inr v, w) \<Rightarrow> k v w)"

definition catch_rethrow :: "string \<Rightarrow> (js_error + 'a) \<times> world \<Rightarrow> (js_error + 'a) \<times> world" where
  "catch_rethrow prefix r =
     (case r of (Inl e, w) \<Rightarrow> (Inl (rethrow prefix e), w) | (Inr v, w) \<Rightarrow> (Inr v, w))"

section \<open>FirestoreService: investors and the ledger\<close>

record investor =
  inv_id :: doc_id
  inv_name :: string
  inv_email :: string
  inv_currentBalance :: real
  inv_accountStatus :: string

text \<open>The investor object that \<open>getInvestorById\<close>, \<open>subscribeToInvestor\<close> and
  \<open>processUserDocsAsInvestors\<close> build from a user document.\<close>

definition investor_of :: "doc_id \<Rightarrow> user_doc \<Rightarrow> investor" where
  "investor_of i d =
     \<lparr>inv_id = i,
      inv_name = or_str (u_name d) ''Unknown Investor'',
      inv_email = or_str (u_email d) [],
      inv_currentBalance = or_num (u_currentBalance d) 0,
      inv_accountStatus = or_str (u_accountStatus d) ''Active''\<rparr>"

definition processUserDocsAsInvestors :: "user_doc coll \<Rightarrow> investor list" where
  "processUserDocsAsInvestors docs = map (\<lambda>(i, d). investor_of i d) docs"

definition getInvestorById :: "world \<Rightarrow> doc_id \<Rightarrow> (js_error + investor option) \<times> world" where
  "getInvestorById w i =
     catch_rethrow ''Failed to retrieve investor profile: ''
       (andThen (getDoc users_ref i w) (\<lambda>docSnap w1.
          case docSnap of
            Some d \<Rightarrow>
              if u_role d \<noteq> Some ''investor'' then (Inr None, w1)
              else (Inr (Some (investor_of i d)), w1)
          | None \<Rightarrow> (Inr None, w1)))"

definition updateInvestorBalance :: "world \<Rightarrow> doc_id \<Rightarrow> real \<Rightarrow> (js_error + unit) \<times> world" where
  "updateInvestorBalance w i newBalance =
     catch_rethrow ''Failed to update account balance: ''
       (updateDoc users_ref i
          (\<lambda>now d. d\<lparr>u_currentBalance := Some newBalance, u_updatedAt := Some now\<rparr>) w)"

text \<open>The argument of \<open>addTransaction\<close>, of type \<open>Omit<Transaction, 'id'>\<close>.\<close>

record new_transaction =
  n_investorId :: string
  n_type :: string
  n_amount :: real
  n_date :: string
  n_status :: string
  n_description :: string

definition addTransaction :: "world \<Rightarrow> new_transaction \<Rightarrow> (js_error + unit) \<times> world" where
  "addTransaction w t =
     catch_rethrow ''Failed to record transaction: ''
       (andThen
          (addDoc transactions_ref
             (\<lambda>now. \<lparr>t_investorId = Some (n_investorId t), t_type = Some (n_type t),
                      t_amount = Some (n_amount t), t_date = Some (n_date t),
                      t_status = Some (n_status t), t_description = Some (n_description t),
                      t_createdAt = Some now, t_updatedAt = None\<rparr>) w)
          (\<lambda>docRef w1. (Inr (), w1)))"

text \<open>\<open>fadd\<close> is the host's addition of doubles in
  \<open>investor.currentBalance + amount\<close>.\<close>

definition addCreditToInvestor ::
  "(real \<Rightarrow> real \<Rightarrow> real) \<Rightarrow> world \<Rightarrow> doc_id \<Rightarrow> real \<Rightarrow> string
     \<Rightarrow> (js_error + unit) \<times> world" where
  "addCreditToInvestor fadd w investorId amount adminId =
     catch_rethrow ''Failed to add credit: ''
       (andThen (getInvestorById w investorId) (\<lambda>found w1.
          case found of
            None \<Rightarrow> (Inl (JsError ''Investor profile not found'' None), w1)
          | Some investor \<Rightarrow>
              (let newBalance = fadd (inv_currentBalance investor) amount
               in andThen (updateInvestorBalance w1 investorId newBalance) (\<lambda>u w2.
                    addTransaction w2
                      \<lparr>n_investorId = investorId, n_type = ''Credit'', n_amount = amount,
                       n_date = today w2, n_status = ''Completed'',
                       n_description = ''Credit added by admin '' @ adminId\<rparr>))))"

text \<open>The argument \<open>updates: any\<close> of \<open>updateTransaction\<close>: the fields it carries
  (\<open>None\<close> for a field it does not carry).\<close>

record txn_updates =
  up_investorId :: "string option"
  up_type :: "string option"
  up_amount :: "real option"
  up_date :: "string option"
  up_status :: "string option"
  up_description :: "string option"

definition override :: "'a option \<Rightarrow> 'a option \<Rightarrow> 'a option" where
  "override new old = (case new of None \<Rightarrow> old | Some v \<Rightarrow> Some v)"

definition updateTransaction :: "world \<Rightarrow> doc_id \<Rightarrow> txn_updates \<Rightarrow> (js_error + unit) \<times> world" where
  "updateTransaction w i updates =
     catch_rethrow ''Failed to update transaction: ''
       (updateDoc transactions_ref i
          (\<lambda>now d. d\<lparr>t_investorId := override (up_investorId updates) (t_investorId d),
                      t_type := override (up_type updates) (t_type d),
                      t_amount := override (up_amount updates) (t_amount d),
                      t_date := override (up_date updates) (t_date d),
                      t_status := override (up_status updates) (t_status d),
                      t_description := override (up_description updates) (t_description d),
                      t_updatedAt := Some now\<rparr>) w)"

record transaction =
  tx_id :: doc_id
  tx_investorId :: "string option"
  tx_type :: string
  tx_amount :: real
  tx_date :: string
  tx_status :: string
  tx_description :: string

definition processTransactionDocs :: "string \<Rightarrow> txn_doc coll \<Rightarrow> transaction list" where
  "processTransactionDocs tdy docs =
     map (\<lambda>(i, d).
       \<lparr>tx_id = i, tx_investorId = t_investorId d,
        tx_type = or_str (t_type d) ''Deposit'',
        tx_amount = or_num (t_amount d) 0,
        tx_date = or_str (t_date d) tdy,
        tx_status = or_str (t_status d) ''Completed'',
        tx_description = or_str (t_description d) []\<rparr>) docs"

definition is_index_error :: "js_error \<Rightarrow> bool" where
  "is_index_error e =
     (str_includes (err_message e) ''index'' \<or> err_code e = Some ''failed-precondition'')"

definition for_investor :: "string \<Rightarrow> doc_id \<times> txn_doc \<Rightarrow> bool" where
  "for_investor investorId = (\<lambda>(i, d). t_investorId d = Some investorId)"

definition getTransactions ::
  "(string \<Rightarrow> real option) \<Rightarrow> world \<Rightarrow> string option \<Rightarrow> (js_error + transaction list) \<times> world" where
  "getTransactions gt w investorId =
     catch_rethrow ''Failed to load transaction history: ''
       (case (if truthy investorId then investorId else None) of
          Some iid \<Rightarrow>
            (case getDocs_orderBy_desc transactions_ref (for_investor iid) t_date w of
               (Inr querySnapshot, w1) \<Rightarrow>
                 (Inr (processTransactionDocs (today w1) querySnapshot), w1)
             | (Inl indexError, w1) \<Rightarrow>
                 if is_index_error indexError then
                   andThen (getDocs transactions_ref (for_investor iid) w1)
                     (\<lambda>querySnapshot w2.
                        (Inr (js_sort (date_desc gt tx_date)
                                (processTransactionDocs (today w2) querySnapshot)), w2))
                 else (Inl indexError, w1))
        | None \<Rightarrow>
            (case getDocs_orderBy_desc transactions_ref (\<lambda>x. True) t_date w of
               (Inr querySnapshot, w1) \<Rightarrow>
                 (Inr (processTransactionDocs (today w1) querySnapshot), w1)
             | (Inl indexError, w1) \<Rightarrow>
                 andThen (getDocs transactions_ref (\<lambda>x. True) w1)
                   (\<lambda>querySnapshot w2.
                      (Inr (js_sort (date_desc gt tx_date)
                              (processTransactionDocs (today w2) querySnapshot)), w2))))"

section \<open>FirestoreService: withdrawal requests and commissions\<close>

record withdrawal_request =
  wv_id :: doc_id
  wv_investorId :: string
  wv_investorName :: string
  wv_amount :: real
  wv_date :: string
  wv_status :: string
  wv_w8benStatus :: string
  wv_approvalDate :: "timestamp option"
  wv_processedAt :: "timestamp option"
  wv_processedBy :: "string option"
  wv_reason :: "string option"

definition processWithdrawalDocs :: "string \<Rightarrow> wr_doc coll \<Rightarrow> withdrawal_request list" where
  "processWithdrawalDocs tdy docs =
     map (\<lambda>(i, d).
       \<lparr>wv_id = i, wv_investorId = w_investorId d,
        wv_investorName = or_str (Some (w_investorName d)) ''Unknown Investor'',
        wv_amount = or_num (Some (w_amount d)) 0,
        wv_date = or_str (w_date d) tdy,
        wv_status = or_str (w_status d) ''Pending'',
        wv_w8benStatus = or_str (w_w8benStatus d) ''not_required'',
        wv_approvalDate = w_approvalDate d,
        wv_processedAt = w_processedAt d,
        wv_processedBy = w_processedBy d,
        wv_reason = w_reason d\<rparr>) docs"

definition wr_for_investor :: "string option \<Rightarrow> doc_id \<times> wr_doc \<Rightarrow> bool" where
  "wr_for_investor investorId =
     (if truthy investorId then (\<lambda>(i, d). Some (w_investorId d) = investorId) else (\<lambda>x. True))"

definition getWithdrawalRequests ::
  "(string \<Rightarrow> real option) \<Rightarrow> world \<Rightarrow> string option
     \<Rightarrow> (js_error + withdrawal_request list) \<times> world" where
  "getWithdrawalRequests gt w investorId =
     catch_rethrow ''Failed to load withdrawal requests: ''
       (case getDocs_orderBy_desc withdrawalRequests_ref (wr_for_investor investorId) w_date w of
          (Inr querySnapshot, w1) \<Rightarrow> (Inr (processWithdrawalDocs (today w1) querySnapshot), w1)
        | (Inl indexError, w1) \<Rightarrow>
            andThen (getDocs withdrawalRequests_ref (wr_for_investor investorId) w1)
              (\<lambda>querySnapshot w2.
                 (Inr (js_sort (date_desc gt wv_date)
                         (processWithdrawalDocs (today w2) querySnapshot)), w2)))"

definition addWithdrawalRequest ::
  "world \<Rightarrow> string \<Rightarrow> string \<Rightarrow> real \<Rightarrow> string option \<Rightarrow> (js_error + unit) \<times> world" where
  "addWithdrawalRequest w investorId investorName amount withdrawalId =
     catch_rethrow ''Failed to submit withdrawal request: ''
       (let docData = (\<lambda>now.
              \<lparr>w_investorId = investorId, w_investorName = investorName, w_amount = amount,
               w_date = Some (today w), w_status = Some ''Pending'', w_approvalDate = None,
               w_processedBy = None, w_processedAt = None, w_reason = None,
               w_w8benStatus = None, w_w8benApprovedAt = None,
               w_w8benRejectionReason = None, w_createdAt = Some now, w_updatedAt = None\<rparr>)
        in case (if truthy withdrawalId then withdrawalId else None) of
             Some wid \<Rightarrow> setDoc withdrawalRequests_ref wid docData w
           | None \<Rightarrow>
               andThen (addDoc withdrawalRequests_ref docData w) (\<lambda>docRef w1. (Inr (), w1)))"

text \<open>The argument \<open>commission: any\<close> of \<open>addCommission\<close> is a commission document
  whose \<open>createdAt\<close> the method overwrites.\<close>

definition addCommission :: "world \<Rightarrow> comm_doc \<Rightarrow> (js_error + unit) \<times> world" where
  "addCommission w commission =
     catch_rethrow ''Failed to record commission: ''
       (andThen (addDoc commissions_ref (\<lambda>now. commission\<lparr>c_createdAt := Some now\<rparr>) w)
          (\<lambda>docRef w1. (Inr (), w1)))"

text \<open>\<open>fmul\<close> is the host's multiplication of doubles in
  \<open>requestData.amount * 0.15\<close>, the second argument being the literal.\<close>

definition updateWithdrawalRequest ::
  "(real \<Rightarrow> real \<Rightarrow> real) \<Rightarrow> world \<Rightarrow> doc_id \<Rightarrow> string \<Rightarrow> string \<Rightarrow> string option
     \<Rightarrow> (js_error + unit) \<times> world" where
  "updateWithdrawalRequest fmul w i status processedBy reason =
     catch_rethrow ''Failed to process withdrawal request: ''
       (andThen
          (updateDoc withdrawalRequests_ref i
             (\<lambda>now d.
                (let updated = d\<lparr>w_status := Some status, w_processedBy := Some processedBy,
                                  w_processedAt := Some now, w_reason := or_null reason,
                                  w_updatedAt := Some now\<rparr>
                 in if status = ''Approved'' then updated\<lparr>w_approvalDate := Some now\<rparr>
                    else updated)) w)
          (\<lambda>u w1.
             if status = ''Approved'' then
               andThen (getDoc withdrawalRequests_ref i w1) (\<lambda>requestDoc w2.
                 case requestDoc of
                   Some requestData \<Rightarrow>
                     addCommission w2
                       \<lparr>c_investorId = w_investorId requestData,
                        c_investorName = w_investorName requestData,
                        c_withdrawalAmount = w_amount requestData,
                        c_commissionRate = 15,
                        c_commissionAmount = fmul (w_amount requestData) 0.15,
                        c_date = today w2,
                        c_status = ''Earned'',
                        c_withdrawalId = i,
                        c_createdAt = None\<rparr>
                 | None \<Rightarrow> (Inr (), w2))
             else (Inr (), w1)))"

datatype w8ben_decision = W8Approved | W8Rejected

definition updateW8BenStatus ::
  "world \<Rightarrow> doc_id \<Rightarrow> w8ben_decision \<Rightarrow> string \<Rightarrow> string option \<Rightarrow> (js_error + unit) \<times> world" where
  "updateW8BenStatus w withdrawalId status processedBy reason =
     catch_rethrow ''Failed to update W-8 BEN status: ''
       (updateDoc withdrawalRequests_ref withdrawalId
          (\<lambda>now d.
             (case status of
                W8Approved \<Rightarrow>
                  d\<lparr>w_w8benStatus := Some ''approved'', w_updatedAt := Some now,
                    w_w8benApprovedAt := Some now\<rparr>
              | W8Rejected \<Rightarrow>
                  d\<lparr>w_w8benStatus := Some ''rejected'', w_updatedAt := Some now,
                    w_w8benRejectionReason :=
                      Some (or_str reason ''Form rejected by compliance team'')\<rparr>)) w)"

text \<open>\<open>deleteDocument(collectionName, id)\<close> on the transactions collection.\<close>

definition deleteDocument_transactions :: "world \<Rightarrow> doc_id \<Rightarrow> (js_error + unit) \<times> world" where
  "deleteDocument_transactions w i =
     catch_rethrow ''Failed to delete record: '' (deleteDoc transactions_ref i w)"

section \<open>Live subscriptions\<close>

text \<open>
  \<open>onSnapshot(query, onNext, onError)\<close> registers two handlers. A subscription is
  modelled by what it does with one event of the listener: the list of the calls it
  makes to the caller's callback, each with its argument.
\<close>

datatype 'd listener_event = Snapshot 'd | ListenerError js_error

definition subscribeToInvestors :: "user_doc coll listener_event \<Rightarrow> investor list list" where
  "subscribeToInvestors ev =
     (case ev of
        Snapshot querySnapshot \<Rightarrow> [processUserDocsAsInvestors querySnapshot]
      | ListenerError error \<Rightarrow> [])"

definition subscribeToInvestor :: "doc_id \<Rightarrow> user_doc option listener_event \<Rightarrow> investor option list" where
  "subscribeToInvestor i ev =
     (case ev of
        Snapshot docSnapshot \<Rightarrow>
          (case docSnapshot of
             Some d \<Rightarrow> if u_role d \<noteq> Some ''investor'' then [None] else [Some (investor_of i d)]
           | None \<Rightarrow> [None])
      | ListenerError error \<Rightarrow> [None])"

definition subscribeToWithdrawalRequests ::
  "(string \<Rightarrow> real option) \<Rightarrow> string \<Rightarrow> wr_doc coll listener_event
     \<Rightarrow> withdrawal_request list list" where
  "subscribeToWithdrawalRequests gt tdy ev =
     (case ev of
        Snapshot querySnapshot \<Rightarrow>
          [js_sort (date_desc gt wv_date) (processWithdrawalDocs tdy querySnapshot)]
      | ListenerError error \<Rightarrow> [[]])"

definition subscribeToTransactions ::
  "(string \<Rightarrow> real option) \<Rightarrow> string \<Rightarrow> txn_doc coll listener_event \<Rightarrow> transaction list list" where
  "subscribeToTransactions gt tdy ev =
     (case ev of
        Snapshot querySnapshot \<Rightarrow>
          [js_sort (date_desc gt tx_date) (processTransactionDocs tdy querySnapshot)]
      | ListenerError error \<Rightarrow> [[]])"

section \<open>MessageService\<close>

definition is_designated_admin :: "doc_id \<times> user_doc \<Rightarrow> bool" where
  "is_designated_admin = (\<lambda>(i, d). u_role d = Some ''admin'' \<and> u_email d = Some ''crisdoraodxb@gmail.com'')"

definition has_participant :: "string \<Rightarrow> doc_id \<times> conv_doc \<Rightarrow> bool" where
  "has_participant userId = (\<lambda>(i, c). userId \<in> set (cv_participants c))"

definition getOrCreateConversation ::
  "world \<Rightarrow> string \<Rightarrow> string \<Rightarrow> role \<Rightarrow> (js_error + doc_id) \<times> world" where
  "getOrCreateConversation w userId userName userRole =
     catch_rethrow ''Failed to create conversation: ''
       (andThen (getDocs conversations_ref (has_participant userId) w) (\<lambda>conversationsSnapshot w1.
          case conversationsSnapshot of
            existingConversation # rest \<Rightarrow> (Inr (fst existingConversation), w1)
          | [] \<Rightarrow>
              andThen (getDocs users_ref is_designated_admin w1) (\<lambda>adminSnapshot w2.
                (let (adminId, adminName) =
                       (case adminSnapshot of
                          [] \<Rightarrow> (''admin_fallback'', ''Cristian Dorao'')
                        | adminDoc # others \<Rightarrow>
                            (fst adminDoc, or_str (u_name (snd adminDoc)) ''Cristian Dorao''))
                 in addDoc conversations_ref
                      (\<lambda>now.
                         \<lparr>cv_participants =
                            (if userRole = Admin then [userId, adminId] else [adminId, userId]),
                          cv_participantNames =
                            (if userRole = Admin then [userName, adminName] else [adminName, userName]),
                          cv_participantRoles =
                            (if userRole = Admin then [''admin'', ''admin'']
                             else [''admin'', ''investor'']),
                          cv_lastMessage = [],
                          cv_lastMessageTime = Some now,
                          cv_adminId = adminId,
                          cv_affiliateId = userId,
                          cv_createdAt = Some now,
                          cv_updatedAt = Some now\<rparr>) w2))))"

text \<open>\<open>updateConversationLastMessage\<close> catches every error of its update and only logs
  it: the method always resolves. \<open>substring(0, 100)\<close> keeps the first 100 characters.\<close>

definition updateConversationLastMessage :: "world \<Rightarrow> doc_id \<Rightarrow> string \<Rightarrow> (js_error + unit) \<times> world" where
  "updateConversationLastMessage w conversationId lastMsg =
     (case updateDoc conversations_ref conversationId
             (\<lambda>now c. c\<lparr>cv_lastMessage := take 100 lastMsg, cv_lastMessageTime := Some now,
                         cv_updatedAt := Some now\<rparr>) w of
        (Inl error, w1) \<Rightarrow> (Inr (), w1)
      | (Inr u, w1) \<Rightarrow> (Inr (), w1))"

definition sendMessage ::
  "world \<Rightarrow> string \<Rightarrow> string \<Rightarrow> role \<Rightarrow> string \<Rightarrow> string option \<Rightarrow> string option
     \<Rightarrow> priority option \<Rightarrow> (js_error + doc_id) \<times> world" where
  "sendMessage w senderId senderName senderRole content conversationId replyTo prio =
     catch_rethrow ''Failed to send message: ''
       (andThen
          (case (if truthy conversationId then conversationId else None) of
             Some cid \<Rightarrow> (Inr cid, w)
           | None \<Rightarrow> getOrCreateConversation w senderId senderName senderRole)
          (\<lambda>finalConversationId w1.
             andThen
               (addDoc affiliateMessages_ref
                  (\<lambda>now.
                     \<lparr>m_senderId = senderId, m_senderName = senderName,
                      m_senderRole = senderRole, m_content = content,
                      m_timestamp = Some now, m_conversationId = finalConversationId,
                      m_replyTo = or_null replyTo,
                      m_priority = (case prio of None \<Rightarrow> Medium | Some p \<Rightarrow> p),
                      m_status = ''sent'', m_createdAt = Some now\<rparr>) w1)
               (\<lambda>docRef w2.
                  andThen (updateConversationLastMessage w2 finalConversationId content)
                    (\<lambda>u w3. (Inr docRef, w3)))))"

definition or_time :: "timestamp option \<Rightarrow> timestamp \<Rightarrow> timestamp" where
  "or_time v now = (case v of None \<Rightarrow> now | Some t \<Rightarrow> t)"

record affiliate_message =
  am_id :: doc_id
  am_senderId :: string
  am_senderName :: string
  am_senderRole :: role
  am_content :: string
  am_conversationId :: doc_id
  am_status :: string
  am_timestamp :: timestamp
  am_createdAt :: timestamp

definition message_of :: "timestamp \<Rightarrow> doc_id \<times> msg_doc \<Rightarrow> affiliate_message" where
  "message_of now = (\<lambda>(i, d).
     \<lparr>am_id = i, am_senderId = m_senderId d, am_senderName = m_senderName d,
      am_senderRole = m_senderRole d, am_content = m_content d,
      am_conversationId = m_conversationId d, am_status = m_status d,
      am_timestamp = or_time (m_timestamp d) now,
      am_createdAt = or_time (m_createdAt d) now\<rparr>)"

record conversation =
  co_id :: doc_id
  co_participants :: "string list"
  co_participantNames :: "string list"
  co_lastMessage :: string
  co_lastMessageTime :: timestamp
  co_createdAt :: timestamp
  co_updatedAt :: timestamp

definition conversation_of :: "timestamp \<Rightarrow> doc_id \<times> conv_doc \<Rightarrow> conversation" where
  "conversation_of now = (\<lambda>(i, c).
     \<lparr>co_id = i, co_participants = cv_participants c,
      co_participantNames = cv_participantNames c,
      co_lastMessage = cv_lastMessage c,
      co_lastMessageTime = or_time (cv_lastMessageTime c) now,
      co_createdAt = or_time (cv_createdAt c) now,
      co_updatedAt = or_time (cv_updatedAt c) now\<rparr>)"

text \<open>The client's clock \<open>new Date()\<close> is the argument \<open>now\<close> of the two handlers.\<close>

definition subscribeToMessages :: "timestamp \<Rightarrow> msg_doc coll listener_event \<Rightarrow> affiliate_message list list" where
  "subscribeToMessages now ev =
     (case ev of
        Snapshot querySnapshot \<Rightarrow> [map (message_of now) querySnapshot]
      | ListenerError error \<Rightarrow> [[]])"

definition subscribeToConversations :: "timestamp \<Rightarrow> conv_doc coll listener_event \<Rightarrow> conversation list list" where
  "subscribeToConversations now ev =
     (case ev of
        Snapshot querySnapshot \<Rightarrow> [map (conversation_of now) querySnapshot]
      | ListenerError error \<Rightarrow> [[]])"

section \<open>Derived notions and concrete worlds\<close>

text \<open>The commission records of one withdrawal request.\<close>

definition commissions_for :: "world \<Rightarrow> doc_id \<Rightarrow> comm_doc coll" where
  "commissions_for w i = filter (\<lambda>(j, c). c_withdrawalId c = i) (commissions w)"

text \<open>The conversations between the same two parties as a given participant list.\<close>

definition same_pair :: "string list \<Rightarrow> conv_doc coll \<Rightarrow> conv_doc coll" where
  "same_pair ps cs = filter (\<lambda>(j, c). set (cv_participants c) = set ps) cs"

text \<open>The data model's invariant on the conversation directory: at most one conversation
  per pair of participants.\<close>

definition pair_unique :: "conv_doc coll \<Rightarrow> bool" where
  "pair_unique cs =
     list_all (\<lambda>(i, c). list_all (\<lambda>(j, c'). set (cv_participants c) = set (cv_participants c') \<longrightarrow> i = j) cs) cs"

text \<open>A view list reports a request with a given status and tax-form status.\<close>

definition reports :: "withdrawal_request list \<Rightarrow> doc_id \<Rightarrow> string \<Rightarrow> string \<Rightarrow> bool" where
  "reports rs i st w8 = list_ex (\<lambda>r. wv_id r = i \<and> wv_status r = st \<and> wv_w8benStatus r = w8) rs"

text \<open>The transactions that a query of \<open>getTransactions\<close> matches.\<close>

definition matched :: "string option \<Rightarrow> txn_doc coll \<Rightarrow> txn_doc coll" where
  "matched investorId c =
     (case (if truthy investorId then investorId else None) of
        Some iid \<Rightarrow> filter (for_investor iid) c
      | None \<Rightarrow> c)"

text \<open>Every matched transaction has a non-empty date; the dates parse, and parsing keeps
  their order as strings; no two matched transactions have the same date.\<close>

definition dated :: "txn_doc coll \<Rightarrow> bool" where
  "dated c = list_all (\<lambda>(i, d). case t_date d of None \<Rightarrow> False | Some s \<Rightarrow> s \<noteq> []) c"

definition parse_in_order :: "(string \<Rightarrow> real option) \<Rightarrow> string list \<Rightarrow> bool" where
  "parse_in_order gt ds =
     list_all (\<lambda>a. list_all (\<lambda>b.
        case (gt a, gt b) of (Some x, Some y) \<Rightarrow> (a < b) = (x < y) | _ \<Rightarrow> False) ds) ds"

definition dates_of :: "txn_doc coll \<Rightarrow> string list" where
  "dates_of c = map (\<lambda>(i, d). or_str (t_date d) []) c"

text \<open>The ids of the transactions that a read returned, in order.\<close>

definition ids_of :: "js_error + transaction list \<Rightarrow> doc_id list" where
  "ids_of r = (case r of Inl e \<Rightarrow> [] | Inr ts \<Rightarrow> map tx_id ts)"

text \<open>What a subscription hands to its callback, by kind.\<close>

datatype delivered = EmptySequence | NonEmptySequence | NoValue | AValue

datatype entry_point =
  SubscribeToInvestors | SubscribeToInvestor | SubscribeToWithdrawalRequests
  | SubscribeToTransactions | SubscribeToMessages | SubscribeToConversations

definition seq_kind :: "'a list \<Rightarrow> delivered" where
  "seq_kind xs = (if xs = [] then EmptySequence else NonEmptySequence)"

definition opt_kind :: "'a option \<Rightarrow> delivered" where
  "opt_kind v = (case v of None \<Rightarrow> NoValue | Some x \<Rightarrow> AValue)"

definition on_listener_error ::
  "(string \<Rightarrow> real option) \<Rightarrow> string \<Rightarrow> timestamp \<Rightarrow> doc_id \<Rightarrow> entry_point \<Rightarrow> js_error
     \<Rightarrow> delivered list" where
  "on_listener_error gt tdy now i ep e =
     (case ep of
        SubscribeToInvestors \<Rightarrow> map seq_kind (subscribeToInvestors (ListenerError e))
      | SubscribeToInvestor \<Rightarrow> map opt_kind (subscribeToInvestor i (ListenerError e))
      | SubscribeToWithdrawalRequests \<Rightarrow>
          map seq_kind (subscribeToWithdrawalRequests gt tdy (ListenerError e))
      | SubscribeToTransactions \<Rightarrow> map seq_kind (subscribeToTransactions gt tdy (ListenerError e))
      | SubscribeToMessages \<Rightarrow> map seq_kind (subscribeToMessages now (ListenerError e))
      | SubscribeToConversations \<Rightarrow> map seq_kind (subscribeToConversations now (ListenerError e)))"

text \<open>
  An instance of the host's arithmetic, for evaluating the model on concrete numbers: the
  exact sum and the exact product. The host's result is the exact one wherever the exact
  one is a double, as for \<open>500 + 250\<close>; and the host's product of 1000 and the literal
  \<open>0.15\<close> is 150. The instance is used at such numbers only.
\<close>

definition exact_add :: "real \<Rightarrow> real \<Rightarrow> real" where
  "exact_add a b = a + b"

definition exact_mul :: "real \<Rightarrow> real \<Rightarrow> real" where
  "exact_mul a b = a * b"

definition index_missing :: js_error where
  "index_missing = JsError ''The query requires an index.'' (Some ''failed-precondition'')"

definition unavailable :: js_error where
  "unavailable = JsError ''The client is offline.'' (Some ''unavailable'')"

definition empty_world :: world where
  "empty_world =
     \<lparr>users = [], transactions = [], withdrawalRequests = [], commissions = [],
      conversations = [], affiliateMessages = [], clock = 7, today = ''2024-03-05'',
      faults = []\<rparr>"

definition request_1000 :: wr_doc where
  "request_1000 =
     \<lparr>w_investorId = ''u1'', w_investorName = ''Alice'', w_amount = 1000,
      w_date = Some ''2024-03-01'', w_status = Some ''Pending'', w_approvalDate = None,
      w_processedBy = None, w_processedAt = None, w_reason = None, w_w8benStatus = None,
      w_w8benApprovedAt = None, w_w8benRejectionReason = None, w_createdAt = Some 3,
      w_updatedAt = None\<rparr>"

definition world_withdrawal :: world where
  "world_withdrawal = empty_world\<lparr>withdrawalRequests := [(''w1'', request_1000)]\<rparr>"

definition alice :: user_doc where
  "alice =
     \<lparr>u_role = Some ''investor'', u_name = Some ''Alice'', u_email = Some ''alice@example.com'',
      u_currentBalance = Some 500, u_accountStatus = Some ''Active'', u_updatedAt = Some 1\<rparr>"

definition world_investor :: world where
  "world_investor = empty_world\<lparr>users := [(''u1'', alice)]\<rparr>"

definition deposit_on :: "string \<Rightarrow> txn_doc" where
  "deposit_on day =
     \<lparr>t_investorId = Some ''u1'', t_type = Some ''Deposit'', t_amount = Some 100,
      t_date = Some day, t_status = Some ''Completed'', t_description = Some ''Deposit'',
      t_createdAt = Some 2, t_updatedAt = None\<rparr>"

definition world_ledger :: world where
  "world_ledger =
     empty_world\<lparr>transactions :=
       [(''t1'', deposit_on ''2024-01-01''), (''t2'', deposit_on ''2024-03-01''),
        (''t3'', deposit_on ''2024-02-01'')]\<rparr>"

definition world_same_day :: world where
  "world_same_day =
     empty_world\<lparr>transactions :=
       [(''a'', deposit_on ''2024-01-01''), (''b'', deposit_on ''2024-01-01'')]\<rparr>"

definition status_update :: txn_updates where
  "status_update =
     \<lparr>up_investorId = None, up_type = None, up_amount = Some 250, up_date = None,
      up_status = Some ''Cancelled'', up_description = None\<rparr>"

definition chat_c1 :: conv_doc where
  "chat_c1 =
     \<lparr>cv_participants = [''admin_fallback'', ''u1''],
      cv_participantNames = [''Cristian Dorao'', ''Alice''],
      cv_participantRoles = [''admin'', ''investor''],
      cv_lastMessage = ''old'', cv_lastMessageTime = Some 4, cv_adminId = ''admin_fallback'',
      cv_affiliateId = ''u1'', cv_createdAt = Some 4, cv_updatedAt = Some 4\<rparr>"

definition world_chat :: world where
  "world_chat = empty_world\<lparr>conversations := [(''c1'', chat_c1)]\<rparr>"

section \<open>Verification\<close>

subsection \<open>Facts about the store calls\<close>

lemmas ref_defs =
  users_ref_def transactions_ref_def withdrawalRequests_ref_def commissions_ref_def
  conversations_ref_def affiliateMessages_ref_def

lemmas call_defs =
  getDoc_def updateDoc_def setDoc_def addDoc_def deleteDoc_def getDocs_def
  getDocs_orderBy_desc_def next_outcome_def tick_def andThen_def catch_rethrow_def
  rethrow_def not_found_def

lemmas example_defs =
  empty_world_def world_withdrawal_def request_1000_def world_investor_def alice_def
  world_ledger_def world_same_day_def deposit_on_def status_update_def world_chat_def
  chat_c1_def index_missing_def unavailable_def

lemma map_of_replace_doc:
  "map_of (replace_doc i v c) j =
     (if j = i then (if map_of c i = None then None else Some v) else map_of c j)"
  by (induction c) (auto simp: replace_doc_def)

lemma length_le_foldr_max: "x \<in> set ids \<Longrightarrow> length x \<le> foldr max (map length ids) 0"
  by (induction ids) auto

lemma newId_fresh: "newId ids \<notin> set ids"
proof
  assume "newId ids \<in> set ids"
  then have "length (newId ids) \<le> foldr max (map length ids) 0"
    by (rule length_le_foldr_max)
  then show False by (simp add: newId_def)
qed

lemma map_of_append_fresh:
  "i \<notin> fst ` set c \<Longrightarrow> map_of (c @ [(i, v)]) i = Some v"
  by (induction c) auto

subsection \<open>Withdrawal processing and commissions\<close>

text \<open>
  C1 (as stated, refuted). The claim says that processing a request with decision
  \<open>Approved\<close> leaves exactly one commission for the request however often it is done.
  Approving the request \<open>w1\<close> of 1000 twice leaves two commission records for it.
\<close>

theorem approve_twice_two_commissions:
  "length (commissions_for
      (snd (updateWithdrawalRequest exact_mul
         (snd (updateWithdrawalRequest exact_mul world_withdrawal ''w1'' ''Approved'' ''admin'' None))
         ''w1'' ''Approved'' ''admin'' None)) ''w1'') = 2"
  by code_simp

text \<open>
  C1 (amended). Every call that processes an existing request with decision \<open>Approved\<close>
  and in which no store call fails succeeds, and every successful such call appends, before
  it returns, exactly one commission record to the commissions: for this request, with
  rate 15, the request's amount as withdrawal amount, status \<open>Earned\<close>, and as
  commission amount the host's product of that amount and 0.15, which is 0.15 times the
  amount whenever the host's product is the exact one (150 for the amount 1000).
\<close>

theorem approved_adds_one_commission:
  "(faults w = [] \<longrightarrow> map_of (withdrawalRequests w) i \<noteq> None \<longrightarrow>
      fst (updateWithdrawalRequest fmul w i ''Approved'' actor reason) = Inr ())
   \<and> (updateWithdrawalRequest fmul w i ''Approved'' actor reason = (Inr (), w') \<longrightarrow>
      (\<exists>d new. map_of (withdrawalRequests w) i = Some d
         \<and> commissions w' = commissions w @ [(newId (map fst (commissions w)), new)]
         \<and> c_withdrawalId new = i \<and> c_commissionRate new = 15
         \<and> c_withdrawalAmount new = w_amount d
         \<and> c_commissionAmount new = fmul (w_amount d) 0.15
         \<and> (fmul (w_amount d) 0.15 = w_amount d * 0.15 \<longrightarrow>
               c_commissionAmount new = w_amount d * 0.15)
         \<and> c_status new = ''Earned''))"
  by (auto simp: updateWithdrawalRequest_def addCommission_def call_defs ref_defs
      map_of_replace_doc Let_def
      split: list.splits option.splits prod.splits sum.splits if_splits)

theorem approved_adds_one_commission_witness:
  "faults world_withdrawal = [] \<and> map_of (withdrawalRequests world_withdrawal) ''w1'' \<noteq> None
   \<and> exact_mul (w_amount request_1000) 0.15 = w_amount request_1000 * 0.15
   \<and> fst (updateWithdrawalRequest exact_mul world_withdrawal ''w1'' ''Approved'' ''admin'' None)
       = Inr ()
   \<and> (\<exists>new. commissions (snd (updateWithdrawalRequest exact_mul world_withdrawal ''w1''
                                  ''Approved'' ''admin'' None))
               = [(''A'', new)]
         \<and> c_withdrawalId new = ''w1'' \<and> c_commissionRate new = 15
         \<and> c_commissionAmount new = 150)"
proof -
  let ?r = "updateWithdrawalRequest exact_mul world_withdrawal ''w1'' ''Approved'' ''admin'' None"
  have f: "faults world_withdrawal = []"
    by code_simp
  have m: "map_of (withdrawalRequests world_withdrawal) ''w1'' = Some request_1000"
    by code_simp
  have m': "map_of (withdrawalRequests world_withdrawal) ''w1'' \<noteq> None"
    using m by simp
  have e: "exact_mul (w_amount request_1000) 0.15 = w_amount request_1000 * 0.15"
    by (simp add: exact_mul_def)
  have a: "w_amount request_1000 * 0.15 = 150"
    by (simp add: request_1000_def)
  have n: "commissions world_withdrawal = []" "newId [] = ''A''"
    by code_simp+
  note inst = approved_adds_one_commission
    [where fmul = exact_mul and w = world_withdrawal and i = "''w1''" and actor = "''admin''"
       and reason = None and w' = "snd ?r"]
  note ok = inst [THEN conjunct1, THEN mp, OF f, THEN mp, OF m']
  have run: "?r = (Inr (), snd ?r)"
    using ok by (simp only: prod_eq_iff fst_conv snd_conv simp_thms)
  from inst [THEN conjunct2, THEN mp, OF run] obtain d where
    "\<exists>new. map_of (withdrawalRequests world_withdrawal) ''w1'' = Some d
         \<and> commissions (snd ?r)
             = commissions world_withdrawal @ [(newId (map fst (commissions world_withdrawal)), new)]
         \<and> c_withdrawalId new = ''w1'' \<and> c_commissionRate new = 15
         \<and> c_withdrawalAmount new = w_amount d
         \<and> c_commissionAmount new = exact_mul (w_amount d) 0.15
         \<and> (exact_mul (w_amount d) 0.15 = w_amount d * 0.15 \<longrightarrow>
               c_commissionAmount new = w_amount d * 0.15)
         \<and> c_status new = ''Earned''" ..
  then obtain new where all:
    "map_of (withdrawalRequests world_withdrawal) ''w1'' = Some d
         \<and> commissions (snd ?r)
             = commissions world_withdrawal @ [(newId (map fst (commissions world_withdrawal)), new)]
         \<and> c_withdrawalId new = ''w1'' \<and> c_commissionRate new = 15
         \<and> c_withdrawalAmount new = w_amount d
         \<and> c_commissionAmount new = exact_mul (w_amount d) 0.15
         \<and> (exact_mul (w_amount d) 0.15 = w_amount d * 0.15 \<longrightarrow>
               c_commissionAmount new = w_amount d * 0.15)
         \<and> c_status new = ''Earned''" ..
  have d: "d = request_1000"
    using all [THEN conjunct1] m by simp
  note cs = all [THEN conjunct2, THEN conjunct1]
  note wid = all [THEN conjunct2, THEN conjunct2, THEN conjunct1]
  note rate = all [THEN conjunct2, THEN conjunct2, THEN conjunct2, THEN conjunct1]
  note exact = all [THEN conjunct2, THEN conjunct2, THEN conjunct2, THEN conjunct2,
      THEN conjunct2, THEN conjunct2, THEN conjunct1]
  have amt: "c_commissionAmount new = 150"
    using exact e a d by simp
  have cs': "commissions (snd ?r) = [(''A'', new)]"
    using cs n by simp
  have ex: "\<exists>new. commissions (snd ?r) = [(''A'', new)]
         \<and> c_withdrawalId new = ''w1'' \<and> c_commissionRate new = 15
         \<and> c_commissionAmount new = 150"
    by (intro exI [of _ new] conjI cs' wid rate amt)
  show ?thesis
    by (intro conjI f m' e ok ex)
qed

text \<open>
  C8. Processing a request with decision \<open>Rejected\<close> never touches the commissions, the
  users (where the balances are) or the transactions, whatever the store does; when it
  succeeds the request carries the status \<open>Rejected\<close> and every other request is as before.
\<close>

theorem rejected_no_commission_no_reversal:
  "commissions (snd (updateWithdrawalRequest fmul w i ''Rejected'' actor reason)) = commissions w
   \<and> users (snd (updateWithdrawalRequest fmul w i ''Rejected'' actor reason)) = users w
   \<and> transactions (snd (updateWithdrawalRequest fmul w i ''Rejected'' actor reason)) = transactions w
   \<and> (updateWithdrawalRequest fmul w i ''Rejected'' actor reason = (Inr (), w') \<longrightarrow>
        (\<exists>d d'. map_of (withdrawalRequests w) i = Some d
           \<and> map_of (withdrawalRequests w') i = Some d'
           \<and> w_status d' = Some ''Rejected'' \<and> w_processedBy d' = Some actor
           \<and> w_approvalDate d' = w_approvalDate d \<and> w_amount d' = w_amount d)
        \<and> (\<forall>j. j \<noteq> i \<longrightarrow> map_of (withdrawalRequests w') j = map_of (withdrawalRequests w) j))"
  by (auto simp: updateWithdrawalRequest_def call_defs ref_defs map_of_replace_doc Let_def
      split: list.splits option.splits prod.splits sum.splits if_splits)

theorem rejected_no_commission_no_reversal_witness:
  "updateWithdrawalRequest exact_mul world_withdrawal ''w1'' ''Rejected'' ''admin'' (Some ''limit'')
     = (Inr (), snd (updateWithdrawalRequest exact_mul world_withdrawal ''w1'' ''Rejected''
                       ''admin'' (Some ''limit'')))
   \<and> commissions (snd (updateWithdrawalRequest exact_mul world_withdrawal ''w1'' ''Rejected''
                          ''admin'' (Some ''limit''))) = []
   \<and> (\<exists>d'. map_of (withdrawalRequests
               (snd (updateWithdrawalRequest exact_mul world_withdrawal ''w1'' ''Rejected''
                       ''admin'' (Some ''limit'')))) ''w1''
             = Some d' \<and> w_status d' = Some ''Rejected'')"
proof -
  let ?r = "updateWithdrawalRequest exact_mul world_withdrawal ''w1'' ''Rejected'' ''admin''
              (Some ''limit'')"
  have ok: "?r = (Inr (), snd ?r)"
    by code_simp
  have c: "commissions world_withdrawal = []"
    by code_simp
  from ok c show ?thesis
    using rejected_no_commission_no_reversal
      [where fmul = exact_mul and w = world_withdrawal and i = "''w1''" and actor = "''admin''"
         and reason = "Some ''limit''" and w' = "snd ?r"]
    by auto
qed

subsection \<open>Calls that leave the transactions alone\<close>

lemma tx_next_outcome: "transactions (snd (next_outcome w)) = transactions w"
  by (simp add: next_outcome_def split: list.splits)

lemma tx_getDoc: "transactions (snd (getDoc r i w)) = transactions w"
  by (simp add: getDoc_def next_outcome_def split: list.splits option.splits)

lemma tx_getDocs: "transactions (snd (getDocs r P w)) = transactions w"
  by (simp add: getDocs_def next_outcome_def split: list.splits option.splits)

lemma tx_updateDoc:
  assumes "\<And>c w. transactions (putC r c w) = transactions w"
  shows "transactions (snd (updateDoc r i f w)) = transactions w"
  using assms
  by (simp add: updateDoc_def next_outcome_def tick_def split: list.splits option.splits)

lemma tx_addDoc:
  assumes "\<And>c w. transactions (putC r c w) = transactions w"
  shows "transactions (snd (addDoc r mk w)) = transactions w"
  using assms
  by (simp add: addDoc_def next_outcome_def tick_def Let_def split: list.splits option.splits)

lemma tx_setDoc:
  assumes "\<And>c w. transactions (putC r c w) = transactions w"
  shows "transactions (snd (setDoc r i mk w)) = transactions w"
  using assms
  by (simp add: setDoc_def next_outcome_def tick_def split: list.splits option.splits)

lemma tx_andThen:
  fixes w :: world
  assumes "transactions (snd m) = transactions w"
    and "\<And>v w1. transactions w1 = transactions w \<Longrightarrow> transactions (snd (k v w1)) = transactions w"
  shows "transactions (snd (andThen m k)) = transactions w"
  using assms by (cases m) (auto simp: andThen_def split: sum.splits)

lemma tx_catch_rethrow: "transactions (snd (catch_rethrow p m)) = transactions (snd m)"
  by (cases m) (auto simp: catch_rethrow_def split: sum.splits)

lemma tx_put_other:
  "transactions (putC users_ref c w) = transactions w"
  "transactions (putC withdrawalRequests_ref c1 w) = transactions w"
  "transactions (putC commissions_ref c2 w) = transactions w"
  "transactions (putC conversations_ref c3 w) = transactions w"
  "transactions (putC affiliateMessages_ref c4 w) = transactions w"
  by (simp_all add: ref_defs)

lemma tx_addCommission: "transactions (snd (addCommission w c)) = transactions w"
  unfolding addCommission_def tx_catch_rethrow
  by (rule tx_andThen) (simp_all add: tx_addDoc tx_put_other)

lemma tx_getOrCreateConversation:
  "transactions (snd (getOrCreateConversation w u nm r)) = transactions w"
  unfolding getOrCreateConversation_def tx_catch_rethrow
proof (rule tx_andThen)
  show "transactions (snd (getDocs conversations_ref (has_participant u) w)) = transactions w"
    by (rule tx_getDocs)
next
  fix v :: "conv_doc coll" and w1 :: world
  assume w1: "transactions w1 = transactions w"
  have "transactions (snd (andThen (getDocs users_ref is_designated_admin w1) k)) = transactions w"
    if "\<And>a w2. transactions w2 = transactions w \<Longrightarrow> transactions (snd (k a w2)) = transactions w"
    for k :: "user_doc coll \<Rightarrow> world \<Rightarrow> (js_error + doc_id) \<times> world"
    using that by (intro tx_andThen) (simp_all add: tx_getDocs w1)
  then show "transactions (snd (case v of
        [] \<Rightarrow> andThen (getDocs users_ref is_designated_admin w1) (\<lambda>adminSnapshot w2.
                (let (adminId, adminName) =
                       (case adminSnapshot of
                          [] \<Rightarrow> (''admin_fallback'', ''Cristian Dorao'')
                        | adminDoc # others \<Rightarrow>
                            (fst adminDoc, or_str (u_name (snd adminDoc)) ''Cristian Dorao''))
                 in addDoc conversations_ref
                      (\<lambda>now.
                         \<lparr>cv_participants =
                            (if r = Admin then [u, adminId] else [adminId, u]),
                          cv_participantNames =
                            (if r = Admin then [nm, adminName] else [adminName, nm]),
                          cv_participantRoles =
                            (if r = Admin then [''admin'', ''admin'']
                             else [''admin'', ''investor'']),
                          cv_lastMessage = [],
                          cv_lastMessageTime = Some now,
                          cv_adminId = adminId,
                          cv_affiliateId = u,
                          cv_createdAt = Some now,
                          cv_updatedAt = Some now\<rparr>) w2))
      | existingConversation # rest \<Rightarrow> (Inr (fst existingConversation), w1))) = transactions w"
    by (cases v) (simp_all add: w1 tx_addDoc tx_put_other split: prod.splits)
qed

lemma snd_updateConversationLastMessage:
  "snd (updateConversationLastMessage w c m) =
     snd (updateDoc conversations_ref c
            (\<lambda>now c. c\<lparr>cv_lastMessage := take 100 m, cv_lastMessageTime := Some now,
                        cv_updatedAt := Some now\<rparr>) w)"
  unfolding updateConversationLastMessage_def
  by (simp split: prod.splits sum.splits)

lemma tx_updateConversationLastMessage:
  "transactions (snd (updateConversationLastMessage w c m)) = transactions w"
  by (simp add: snd_updateConversationLastMessage tx_updateDoc tx_put_other)

lemma tx_sendMessage:
  "transactions (snd (sendMessage w u nm r content cid rt pr)) = transactions w"
  unfolding sendMessage_def tx_catch_rethrow
proof (rule tx_andThen)
  show "transactions (snd (case (if truthy cid then cid else None) of
             Some c \<Rightarrow> (Inr c, w)
           | None \<Rightarrow> getOrCreateConversation w u nm r)) = transactions w"
    by (simp add: tx_getOrCreateConversation split: option.splits)
next
  fix v :: doc_id and w1 :: world
  assume w1: "transactions w1 = transactions w"
  show "transactions (snd (andThen
               (addDoc affiliateMessages_ref
                  (\<lambda>now.
                     \<lparr>m_senderId = u, m_senderName = nm,
                      m_senderRole = r, m_content = content,
                      m_timestamp = Some now, m_conversationId = v,
                      m_replyTo = or_null rt,
                      m_priority = (case pr of None \<Rightarrow> Medium | Some p \<Rightarrow> p),
                      m_status = ''sent'', m_createdAt = Some now\<rparr>) w1)
               (\<lambda>docRef w2.
                  andThen (updateConversationLastMessage w2 v content)
                    (\<lambda>u w3. (Inr docRef, w3))))) = transactions w"
    by (intro tx_andThen) (simp_all add: tx_addDoc tx_put_other w1 tx_updateConversationLastMessage)
qed
subsection \<open>The ledger\<close>

text \<open>
  C2 (as stated, refuted). The claim says that no operation modifies a transaction
  document once it is written. \<open>updateTransaction\<close> does: on the ledger with the
  deposit \<open>t1\<close> it succeeds and the document \<open>t1\<close> is no longer the one that was written.
\<close>

theorem updateTransaction_modifies:
  "fst (updateTransaction world_ledger ''t1'' status_update) = Inr ()
   \<and> map_of (transactions (snd (updateTransaction world_ledger ''t1'' status_update))) ''t1''
       \<noteq> map_of (transactions world_ledger) ''t1''"
  by code_simp

text \<open>
  C2 (amended). The operations that record balance-affecting events and the other
  writers of the services only append to the transactions collection or leave it as it
  is, so every transaction document already written stays as it was written:
  \<open>addTransaction\<close> and \<open>addCreditToInvestor\<close> at most append, and
  \<open>updateInvestorBalance\<close>, \<open>addWithdrawalRequest\<close>, \<open>updateWithdrawalRequest\<close>,
  \<open>updateW8BenStatus\<close>, \<open>addCommission\<close>, \<open>getOrCreateConversation\<close> and \<open>sendMessage\<close>
  do not touch the collection. An existing transaction document changes only through
  \<open>updateTransaction\<close> (which overwrites the fields it is given and stamps \<open>updatedAt\<close>)
  or is removed through \<open>deleteDocument\<close>.
\<close>

theorem transactions_append_only:
  "(\<exists>new. transactions (snd (addTransaction w t)) = transactions w @ new)
   \<and> (\<exists>new. transactions (snd (addCreditToInvestor fadd w i a adm)) = transactions w @ new)
   \<and> transactions (snd (updateInvestorBalance w i b)) = transactions w
   \<and> transactions (snd (addWithdrawalRequest w i nm a wid)) = transactions w
   \<and> transactions (snd (updateWithdrawalRequest fmul w i st actor reason)) = transactions w
   \<and> transactions (snd (updateW8BenStatus w i dec actor reason)) = transactions w
   \<and> transactions (snd (addCommission w c)) = transactions w
   \<and> transactions (snd (getOrCreateConversation w u nm r)) = transactions w
   \<and> transactions (snd (sendMessage w u nm r content cid rt pr)) = transactions w"
proof (intro conjI)
  show "\<exists>new. transactions (snd (addTransaction w t)) = transactions w @ new"
    by (auto simp: addTransaction_def call_defs ref_defs Let_def
        split: list.splits option.splits prod.splits sum.splits)
  show "\<exists>new. transactions (snd (addCreditToInvestor fadd w i a adm)) = transactions w @ new"
    by (auto simp: addCreditToInvestor_def getInvestorById_def updateInvestorBalance_def
        addTransaction_def call_defs ref_defs Let_def
        split: list.splits option.splits prod.splits sum.splits)
  show "transactions (snd (updateInvestorBalance w i b)) = transactions w"
    by (auto simp: updateInvestorBalance_def call_defs ref_defs
        split: list.splits option.splits prod.splits sum.splits)
  show "transactions (snd (addWithdrawalRequest w i nm a wid)) = transactions w"
    by (auto simp: addWithdrawalRequest_def call_defs ref_defs Let_def
        split: list.splits option.splits prod.splits sum.splits)
  show "transactions (snd (updateWithdrawalRequest fmul w i st actor reason)) = transactions w"
    by (auto simp: updateWithdrawalRequest_def addCommission_def call_defs ref_defs Let_def
        split: list.splits option.splits prod.splits sum.splits)
  show "transactions (snd (updateW8BenStatus w i dec actor reason)) = transactions w"
    by (auto simp: updateW8BenStatus_def call_defs ref_defs
        split: list.splits option.splits prod.splits sum.splits)
  show "transactions (snd (addCommission w c)) = transactions w"
    by (rule tx_addCommission)
  show "transactions (snd (getOrCreateConversation w u nm r)) = transactions w"
    by (rule tx_getOrCreateConversation)
  show "transactions (snd (sendMessage w u nm r content cid rt pr)) = transactions w"
    by (rule tx_sendMessage)
qed



text \<open>
  C9. When the read and the balance write of \<open>addCreditToInvestor\<close> go through and the
  append of the transaction fails, the operation raises (the error of the append, wrapped
  twice), the investor's stored balance is the credited one (the sum as the host computes
  it), and no transaction was recorded.
\<close>

theorem credit_not_atomic:
  assumes "map_of (users w) i = Some d" and "u_role d = Some ''investor''"
    and "faults w = None # None # Some e # rest"
  shows "\<exists>w' d'.
           addCreditToInvestor fadd w i a adm =
             (Inl (JsError (''Failed to add credit: Failed to record transaction: '' @ err_message e)
                     None), w')
         \<and> map_of (users w') i = Some d'
         \<and> u_currentBalance d' = Some (fadd (or_num (u_currentBalance d) 0) a)
         \<and> transactions w' = transactions w"
  using assms
  by (auto simp: addCreditToInvestor_def getInvestorById_def updateInvestorBalance_def
      addTransaction_def call_defs ref_defs investor_of_def map_of_replace_doc Let_def
      split: list.splits option.splits prod.splits sum.splits if_splits)

theorem credit_not_atomic_witness:
  "map_of (users world_investor) ''u1'' = Some alice \<and> u_role alice = Some ''investor''
   \<and> faults (world_investor\<lparr>faults := [None, None, Some unavailable]\<rparr>)
       = [None, None, Some unavailable]
   \<and> (\<exists>w' d'. addCreditToInvestor exact_add
                  (world_investor\<lparr>faults := [None, None, Some unavailable]\<rparr>) ''u1'' 250 ''root''
                = (Inl (JsError ''Failed to add credit: Failed to record transaction: The client is offline.''
                          None), w')
          \<and> map_of (users w') ''u1'' = Some d' \<and> u_currentBalance d' = Some 750
          \<and> transactions w' = [])"
proof -
  let ?w = "world_investor\<lparr>faults := [None, None, Some unavailable]\<rparr>"
  have h: "map_of (users ?w) ''u1'' = Some alice" "u_role alice = Some ''investor''"
    "faults ?w = None # None # Some unavailable # []"
    by code_simp+
  have v: "exact_add (or_num (u_currentBalance alice) 0) 250 = 750"
    "''Failed to add credit: Failed to record transaction: '' @ err_message unavailable
       = ''Failed to add credit: Failed to record transaction: The client is offline.''"
    "transactions ?w = []" "map_of (users world_investor) ''u1'' = Some alice"
    by code_simp+
  from credit_not_atomic [OF h, where fadd = exact_add and a = 250 and adm = "''root''"] v h
  show ?thesis
    by simp
qed

subsection \<open>Listener errors\<close>

text \<open>
  C3 (as stated, refuted). The claim says that every subscribe entry point hands an
  empty sequence to its callback when the listener fails. The subscription to one investor
  hands over \<open>null\<close>: its callback takes an investor or \<open>null\<close>, not a sequence.
\<close>

theorem single_investor_error_not_empty_sequence:
  "on_listener_error iso_getTime ''2024-03-05'' 9 ''u1'' SubscribeToInvestor unavailable
     \<noteq> [EmptySequence]"
  by code_simp

text \<open>
  C3 (amended). When the listener fails, the subscriptions to withdrawal requests, to
  transactions, to messages and to conversations call their callback once, with the empty
  sequence, and the subscription to one investor calls its callback once, with \<open>null\<close>;
  none of them raises.
\<close>

theorem listener_error_delivers_empty:
  "subscribeToWithdrawalRequests gt tdy (ListenerError e) = [[]]
   \<and> subscribeToTransactions gt tdy (ListenerError e) = [[]]
   \<and> subscribeToMessages now (ListenerError e) = [[]]
   \<and> subscribeToConversations now (ListenerError e) = [[]]
   \<and> subscribeToInvestor i (ListenerError e) = [None]
   \<and> on_listener_error gt tdy now i SubscribeToWithdrawalRequests e = [EmptySequence]
   \<and> on_listener_error gt tdy now i SubscribeToTransactions e = [EmptySequence]
   \<and> on_listener_error gt tdy now i SubscribeToMessages e = [EmptySequence]
   \<and> on_listener_error gt tdy now i SubscribeToConversations e = [EmptySequence]
   \<and> on_listener_error gt tdy now i SubscribeToInvestor e = [NoValue]"
  by (simp add: subscribeToWithdrawalRequests_def subscribeToTransactions_def
      subscribeToMessages_def subscribeToConversations_def subscribeToInvestor_def
      on_listener_error_def seq_kind_def opt_kind_def)

text \<open>The handler of \<open>subscribeToInvestors\<close> only logs the error.\<close>

lemma subscribeToInvestors_error_silent: "subscribeToInvestors (ListenerError e) = []"
  by (simp add: subscribeToInvestors_def)

subsection \<open>The conversation directory\<close>

lemma getDocs_ok: "faults w = [] \<Longrightarrow> getDocs r P w = (Inr (unordered P (getC r w)), w)"
  by (simp add: getDocs_def next_outcome_def)

lemma addDoc_ok:
  "faults w = [] \<Longrightarrow>
     addDoc r mk w =
       (Inr (newId (map fst (getC r w))),
        tick (putC r (getC r w @ [(newId (map fst (getC r w)), mk (clock w))]) w))"
  by (simp add: addDoc_def next_outcome_def Let_def)

lemma unordered_Nil: "unordered P c = [] \<longleftrightarrow> filter P c = []"
  by (metis unordered_def length_sort length_0_conv)

lemma set_unordered: "set (unordered P c) = {x \<in> set c. P x}"
  by (simp add: unordered_def)

lemma getOrCreateConversation_found:
  assumes "faults w = []" and "unordered (has_participant u) (conversations w) = x # rest"
  shows "getOrCreateConversation w u nm r = (Inr (fst x), w)"
  using assms
  by (simp add: getOrCreateConversation_def getDocs_ok andThen_def catch_rethrow_def
      conversations_ref_def)

lemma getOrCreateConversation_created:
  assumes "faults w = []" and "unordered (has_participant u) (conversations w) = []"
  shows "\<exists>new. getOrCreateConversation w u nm r =
           (Inr (newId (map fst (conversations w))),
            w\<lparr>conversations := conversations w @ [(newId (map fst (conversations w)), new)],
              clock := Suc (clock w)\<rparr>)
         \<and> u \<in> set (cv_participants new) \<and> cv_lastMessageTime new = Some (clock w)"
proof -
  define adm where "adm =
    (case unordered is_designated_admin (users w) of
        [] \<Rightarrow> (''admin_fallback'', ''Cristian Dorao'')
      | adminDoc # others \<Rightarrow> (fst adminDoc, or_str (u_name (snd adminDoc)) ''Cristian Dorao''))"
  obtain adminId adminName where an: "adm = (adminId, adminName)"
    by (cases adm)
  have gc: "getC conversations_ref w = conversations w" "getC users_ref w = users w"
    by (simp_all add: conversations_ref_def users_ref_def)
  show ?thesis
    unfolding getOrCreateConversation_def
    apply (simp only: getDocs_ok [OF assms(1)] gc assms(2) andThen_def catch_rethrow_def
        prod.case sum.case list.case Let_def an [unfolded adm_def] addDoc_ok [OF assms(1)])
    apply (cases "r = Admin")
     apply (simp_all add: conversations_ref_def tick_def)
     apply (rule exI, rule conjI, rule refl, simp)+
    done
qed

lemma filter_only_one:
  assumes "distinct (map fst cs)" and "(i, c) \<in> set cs" and "Q (i, c)"
    and "\<And>j c'. (j, c') \<in> set cs \<Longrightarrow> Q (j, c') \<Longrightarrow> j = i"
  shows "filter Q cs = [(i, c)]"
  using assms
proof (induction cs)
  case Nil
  then show ?case by simp
next
  case (Cons x cs)
  obtain j c' where x: "x = (j, c')" by (cases x)
  show ?case
  proof (cases "x = (i, c)")
    case True
    have "filter Q cs = []"
    proof (rule ccontr)
      assume "filter Q cs \<noteq> []"
      then obtain y where y: "y \<in> set cs" "Q y"
        by (metis filter_False)
      obtain k d where kd: "y = (k, d)" by (cases y)
      with y Cons.prems(4) have "k = i" by auto
      with y kd have "i \<in> fst ` set cs" by force
      with Cons.prems(1) True show False by simp
    qed
    with True Cons.prems(3) show ?thesis by simp
  next
    case False
    with Cons.prems(2) have mem: "(i, c) \<in> set cs" by simp
    then have "i \<in> fst ` set cs" by force
    with Cons.prems(1) x have "j \<noteq> i" by auto
    with Cons.prems(4) x have "\<not> Q x" by auto
    moreover have "filter Q cs = [(i, c)]"
    proof (rule Cons.IH)
      show "distinct (map fst cs)" using Cons.prems(1) by simp
      show "(i, c) \<in> set cs" by (rule mem)
      show "Q (i, c)" by (rule Cons.prems(3))
      show "j = i" if "(j, c') \<in> set cs" "Q (j, c')" for j c'
        using that Cons.prems(4) [of j c'] by simp
    qed
    ultimately show ?thesis by simp
  qed
qed

lemma pair_unique_iff:
  "pair_unique cs \<longleftrightarrow>
     (\<forall>(i, c) \<in> set cs. \<forall>(j, c') \<in> set cs.
        set (cv_participants c) = set (cv_participants c') \<longrightarrow> i = j)"
  by (simp add: pair_unique_def list_all_iff)

text \<open>
  C6. On a directory that satisfies the data model's invariant (document ids are distinct
  and no two conversations have the same pair of participants), and with no store call
  failing, two calls of \<open>getOrCreateConversation\<close> in sequence for the same user return the
  same conversation id; the second call leaves the store as the first one left it; the
  conversation with that id has the user as a participant, and it is the only
  conversation document of its pair of participants. The invariant holds again afterwards.
\<close>

theorem resolve_twice_same_conversation:
  assumes "faults w = []" and "distinct (map fst (conversations w))"
    and "pair_unique (conversations w)"
  shows "\<exists>cid w1 c.
           getOrCreateConversation w u nm r = (Inr cid, w1)
         \<and> getOrCreateConversation w1 u nm r = (Inr cid, w1)
         \<and> map_of (conversations w1) cid = Some c
         \<and> u \<in> set (cv_participants c)
         \<and> same_pair (cv_participants c) (conversations w1) = [(cid, c)]
         \<and> distinct (map fst (conversations w1)) \<and> pair_unique (conversations w1)"
proof (cases "unordered (has_participant u) (conversations w)")
  case (Cons x rest)
  obtain cid c where x: "x = (cid, c)" by (cases x)
  have call: "getOrCreateConversation w u nm r = (Inr cid, w)"
    using getOrCreateConversation_found [OF assms(1) Cons] x by simp
  have "x \<in> set (unordered (has_participant u) (conversations w))"
    using Cons by simp
  then have mem: "(cid, c) \<in> set (conversations w)" and part: "u \<in> set (cv_participants c)"
    using x by (auto simp: set_unordered has_participant_def)
  have look: "map_of (conversations w) cid = Some c"
    using mem assms(2) by simp
  have "filter (\<lambda>(j, c'). set (cv_participants c') = set (cv_participants c)) (conversations w)
          = [(cid, c)]"
  proof (rule filter_only_one [OF assms(2) mem])
    show "case (cid, c) of (j, c') \<Rightarrow> set (cv_participants c') = set (cv_participants c)"
      by simp
  next
    fix j c'
    assume "(j, c') \<in> set (conversations w)"
      and "case (j, c') of (j, c') \<Rightarrow> set (cv_participants c') = set (cv_participants c)"
    with assms(3) mem show "j = cid"
      unfolding pair_unique_iff by fast
  qed
  then have "same_pair (cv_participants c) (conversations w) = [(cid, c)]"
    by (simp only: same_pair_def)
  have same: "same_pair (cv_participants c) (conversations w) = [(cid, c)]"
    by fact
  show ?thesis
    by (rule exI [of _ cid], rule exI [of _ w], rule exI [of _ c])
      (intro conjI call look part same assms(2) assms(3))
next
  case Nil
  let ?nid = "newId (map fst (conversations w))"
  from getOrCreateConversation_created [OF assms(1) Nil, of nm r] obtain new where
    call: "getOrCreateConversation w u nm r =
             (Inr ?nid, w\<lparr>conversations := conversations w @ [(?nid, new)], clock := Suc (clock w)\<rparr>)"
    and part: "u \<in> set (cv_participants new)"
    by blast
  let ?w1 = "w\<lparr>conversations := conversations w @ [(?nid, new)], clock := Suc (clock w)\<rparr>"
  have fresh: "?nid \<notin> fst ` set (conversations w)"
    using newId_fresh [of "map fst (conversations w)"] by simp
  have none: "filter (has_participant u) (conversations w) = []"
    using Nil by (simp add: unordered_Nil)
  then have others: "u \<notin> set (cv_participants c')" if "(j, c') \<in> set (conversations w)" for j c'
    using that by (auto simp: filter_empty_conv has_participant_def)
  have f1: "faults ?w1 = []"
    using assms(1) by simp
  have "unordered (has_participant u) (conversations ?w1) = [(?nid, new)]"
    using none part by (simp add: unordered_def has_participant_def)
  from getOrCreateConversation_found [OF f1 this, of nm r]
  have again: "getOrCreateConversation ?w1 u nm r = (Inr ?nid, ?w1)"
    by simp
  have "map_of (conversations w @ [(?nid, new)]) ?nid = Some new"
    using fresh by (rule map_of_append_fresh)
  then have look: "map_of (conversations ?w1) ?nid = Some new"
    by (simp del: map_of_append)
  have "filter (\<lambda>(j, c'). set (cv_participants c') = set (cv_participants new)) (conversations w) = []"
    using others part by (auto simp: filter_empty_conv)
  then have same: "same_pair (cv_participants new) (conversations ?w1) = [(?nid, new)]"
    by (simp add: same_pair_def)
  have dist: "distinct (map fst (conversations ?w1))"
    using assms(2) fresh by simp
  have uniq: "pair_unique (conversations ?w1)"
    unfolding pair_unique_iff
  proof (intro ballI, clarify)
    fix i c j c'
    assume a: "(i, c) \<in> set (conversations ?w1)" and b: "(j, c') \<in> set (conversations ?w1)"
      and eq: "set (cv_participants c) = set (cv_participants c')"
    from a have a': "(i, c) \<in> set (conversations w) \<or> (i, c) = (?nid, new)" by auto
    from b have b': "(j, c') \<in> set (conversations w) \<or> (j, c') = (?nid, new)" by auto
    show "i = j"
    proof (cases "(i, c) = (?nid, new)")
      case True
      with eq part have "u \<in> set (cv_participants c')" by simp
      with b' others have "(j, c') = (?nid, new)" by blast
      with True show ?thesis by simp
    next
      case False
      with a' have old: "(i, c) \<in> set (conversations w)" by blast
      with others have "u \<notin> set (cv_participants c)" by blast
      with eq part have "(j, c') \<noteq> (?nid, new)" by auto
      with b' have "(j, c') \<in> set (conversations w)" by blast
      with old eq assms(3) show ?thesis
        unfolding pair_unique_iff by fast
    qed
  qed
  show ?thesis
    by (rule exI [of _ ?nid], rule exI [of _ ?w1], rule exI [of _ new])
      (intro conjI call again look part same dist uniq)
qed

theorem resolve_twice_same_conversation_witness:
  "faults world_chat = [] \<and> distinct (map fst (conversations world_chat))
   \<and> pair_unique (conversations world_chat)
   \<and> (\<exists>cid w1 c. getOrCreateConversation world_chat ''u2'' ''Bob'' Affiliate = (Inr cid, w1)
         \<and> getOrCreateConversation w1 ''u2'' ''Bob'' Affiliate = (Inr cid, w1)
         \<and> same_pair (cv_participants c) (conversations w1) = [(cid, c)])
   \<and> fst (getOrCreateConversation world_chat ''u2'' ''Bob'' Affiliate) = Inr ''AAA''
   \<and> fst (getOrCreateConversation world_chat ''u1'' ''Alice'' Affiliate) = Inr ''c1''"
proof -
  have h: "faults world_chat = []" "distinct (map fst (conversations world_chat))"
    "pair_unique (conversations world_chat)"
    by code_simp+
  have v: "fst (getOrCreateConversation world_chat ''u2'' ''Bob'' Affiliate) = Inr ''AAA''"
    "fst (getOrCreateConversation world_chat ''u1'' ''Alice'' Affiliate) = Inr ''c1''"
    by code_simp+
  from resolve_twice_same_conversation [OF h, of "''u2''" "''Bob''" Affiliate]
  obtain cid w1 c where
    "getOrCreateConversation world_chat ''u2'' ''Bob'' Affiliate = (Inr cid, w1)"
    "getOrCreateConversation w1 ''u2'' ''Bob'' Affiliate = (Inr cid, w1)"
    "same_pair (cv_participants c) (conversations w1) = [(cid, c)]"
    by blast
  then have ex: "\<exists>cid w1 c. getOrCreateConversation world_chat ''u2'' ''Bob'' Affiliate = (Inr cid, w1)
         \<and> getOrCreateConversation w1 ''u2'' ''Bob'' Affiliate = (Inr cid, w1)
         \<and> same_pair (cv_participants c) (conversations w1) = [(cid, c)]"
    by blast
  show ?thesis
    by (intro conjI h v ex)
qed

subsection \<open>The message log\<close>

lemma updateDoc_ok:
  "faults w = [] \<Longrightarrow> map_of (getC r w) i = Some d \<Longrightarrow>
     updateDoc r i f w = (Inr (), tick (putC r (replace_doc i (f (clock w) d) (getC r w)) w))"
  by (simp add: updateDoc_def next_outcome_def)

lemma andThen_Inr: "andThen (Inr v, w) k = k v w"
  by (simp add: andThen_def)

lemma catch_rethrow_Inr: "catch_rethrow p (Inr v, w) = (Inr v, w)"
  by (simp add: catch_rethrow_def)

lemma append_then_project:
  assumes "faults w1 = []" and "map_of (conversations w1) cid = Some c0"
  shows "\<exists>w3 c'.
           andThen (addDoc affiliateMessages_ref mk w1)
             (\<lambda>docRef w2. andThen (updateConversationLastMessage w2 cid content)
                (\<lambda>u w3. (Inr docRef, w3)))
             = (Inr (newId (map fst (affiliateMessages w1))), w3)
         \<and> map_of (affiliateMessages w3) (newId (map fst (affiliateMessages w1)))
             = Some (mk (clock w1))
         \<and> map_of (conversations w3) cid = Some c'
         \<and> cv_lastMessage c' = take 100 content
         \<and> cv_lastMessageTime c' = Some (Suc (clock w1))"
proof -
  let ?mid = "newId (map fst (affiliateMessages w1))"
  let ?w2 = "tick (putC affiliateMessages_ref
                     (getC affiliateMessages_ref w1 @ [(?mid, mk (clock w1))]) w1)"
  let ?upd = "\<lambda>now c. c\<lparr>cv_lastMessage := take 100 content, cv_lastMessageTime := Some now,
                         cv_updatedAt := Some now\<rparr>"
  let ?w3 = "tick (putC conversations_ref
                     (replace_doc cid (?upd (clock ?w2) c0) (getC conversations_ref ?w2)) ?w2)"
  have add: "addDoc affiliateMessages_ref mk w1 = (Inr ?mid, ?w2)"
    using addDoc_ok [OF assms(1), of affiliateMessages_ref mk]
    by (simp add: affiliateMessages_ref_def)
  have f2: "faults ?w2 = []" and c2: "map_of (getC conversations_ref ?w2) cid = Some c0"
    and k2: "clock ?w2 = Suc (clock w1)"
    using assms by (simp_all add: affiliateMessages_ref_def conversations_ref_def tick_def)
  have upd: "updateConversationLastMessage ?w2 cid content = (Inr (), ?w3)"
    unfolding updateConversationLastMessage_def
    by (simp only: updateDoc_ok [OF f2 c2] prod.case sum.case)
  have run: "andThen (addDoc affiliateMessages_ref mk w1)
             (\<lambda>docRef w2. andThen (updateConversationLastMessage w2 cid content)
                (\<lambda>u w3. (Inr docRef, w3))) = (Inr ?mid, ?w3)"
    by (simp only: add upd andThen_def prod.case sum.case)
  have fresh: "?mid \<notin> fst ` set (affiliateMessages w1)"
    using newId_fresh [of "map fst (affiliateMessages w1)"] by simp
  have "map_of (affiliateMessages w1 @ [(?mid, mk (clock w1))]) ?mid = Some (mk (clock w1))"
    using fresh by (rule map_of_append_fresh)
  then have m3: "map_of (affiliateMessages ?w3) ?mid = Some (mk (clock w1))"
    by (simp add: affiliateMessages_ref_def conversations_ref_def tick_def del: map_of_append)
  have c3: "map_of (conversations ?w3) cid = Some (?upd (clock ?w2) c0)"
    using assms(2)
    by (simp add: affiliateMessages_ref_def conversations_ref_def tick_def map_of_replace_doc)
  have l3: "cv_lastMessage (?upd (clock ?w2) c0) = take 100 content"
    and t3: "cv_lastMessageTime (?upd (clock ?w2) c0) = Some (Suc (clock w1))"
    using k2 by simp_all
  show ?thesis
    by (rule exI [of _ ?w3], rule exI [of _ "?upd (clock ?w2) c0"]) (intro conjI run m3 c3 l3 t3)
qed

lemma resolve_gives_conversation:
  assumes "faults w = []"
  shows "\<exists>cid w1 c0. getOrCreateConversation w u nm r = (Inr cid, w1)
           \<and> faults w1 = [] \<and> map_of (conversations w1) cid = Some c0
           \<and> clock w \<le> clock w1 \<and> affiliateMessages w1 = affiliateMessages w"
proof (cases "unordered (has_participant u) (conversations w)")
  case (Cons x rest)
  have "x \<in> set (unordered (has_participant u) (conversations w))"
    using Cons by simp
  then have "x \<in> set (conversations w)"
    by (simp add: set_unordered)
  then have "fst x \<in> fst ` set (conversations w)"
    by (rule imageI)
  then have "map_of (conversations w) (fst x) \<noteq> None"
    by (simp only: map_of_eq_None_iff not_not)
  then obtain c0 where "map_of (conversations w) (fst x) = Some c0"
    by blast
  with getOrCreateConversation_found [OF assms Cons, of nm r] assms show ?thesis
    by simp
next
  case Nil
  let ?nid = "newId (map fst (conversations w))"
  from getOrCreateConversation_created [OF assms Nil, of nm r] obtain new where
    call: "getOrCreateConversation w u nm r =
             (Inr ?nid, w\<lparr>conversations := conversations w @ [(?nid, new)], clock := Suc (clock w)\<rparr>)"
    by blast
  have fresh: "?nid \<notin> fst ` set (conversations w)"
    using newId_fresh [of "map fst (conversations w)"] by simp
  have "map_of (conversations w @ [(?nid, new)]) ?nid = Some new"
    using fresh by (rule map_of_append_fresh)
  with call assms show ?thesis
    by (simp del: map_of_append)
qed

text \<open>
  C7 (as stated, refuted). The claim says that after every append the conversation's
  \<open>lastMessage\<close> is the new content. When the append of the message goes through and
  the update of the conversation fails, \<open>sendMessage\<close> still returns the id of the
  new message, and the conversation keeps its old \<open>lastMessage\<close> and \<open>lastMessageTime\<close>.
\<close>

theorem append_with_stale_projection:
  "fst (sendMessage (world_chat\<lparr>faults := [None, Some unavailable]\<rparr>)
          ''u1'' ''Alice'' Affiliate ''hello'' (Some ''c1'') None None) = Inr ''A''
   \<and> map_option m_content (map_of (affiliateMessages (snd (sendMessage
          (world_chat\<lparr>faults := [None, Some unavailable]\<rparr>)
          ''u1'' ''Alice'' Affiliate ''hello'' (Some ''c1'') None None))) ''A'') = Some ''hello''
   \<and> map_option cv_lastMessage (map_of (conversations (snd (sendMessage
          (world_chat\<lparr>faults := [None, Some unavailable]\<rparr>)
          ''u1'' ''Alice'' Affiliate ''hello'' (Some ''c1'') None None))) ''c1'') = Some ''old''
   \<and> map_option cv_lastMessageTime (map_of (conversations (snd (sendMessage
          (world_chat\<lparr>faults := [None, Some unavailable]\<rparr>)
          ''u1'' ''Alice'' Affiliate ''hello'' (Some ''c1'') None None))) ''c1'') = Some (Some 4)"
  by code_simp

text \<open>
  C7 (amended). When no store call fails and the conversation exists (the one given, or
  else the one that \<open>getOrCreateConversation\<close> resolves), \<open>sendMessage\<close> succeeds, the new
  message is in the log under the returned id with the given content, and the owning
  conversation's \<open>lastMessage\<close> is the first 100 characters of the content and its
  \<open>lastMessageTime\<close> is the server time of the update, later than the server time at the
  start of the call and so later than a previous \<open>lastMessageTime\<close> stamped by the
  server. When the update of the conversation fails, the error is logged and swallowed:
  the append still succeeds and the conversations are as before.
\<close>

theorem append_updates_projection:
  "(faults w = [] \<longrightarrow>
      (truthy conversationId \<longrightarrow> map_of (conversations w) (the conversationId) \<noteq> None) \<longrightarrow>
      (\<exists>mid w' msg c' t'.
          sendMessage w senderId senderName senderRole content conversationId replyTo prio
            = (Inr mid, w')
        \<and> map_of (affiliateMessages w') mid = Some msg \<and> m_content msg = content
        \<and> (truthy conversationId \<longrightarrow> Some (m_conversationId msg) = conversationId)
        \<and> map_of (conversations w') (m_conversationId msg) = Some c'
        \<and> cv_lastMessage c' = take 100 content
        \<and> cv_lastMessageTime c' = Some t' \<and> clock w < t'
        \<and> (\<forall>c0 t0. map_of (conversations w) (m_conversationId msg) = Some c0 \<longrightarrow>
               cv_lastMessageTime c0 = Some t0 \<longrightarrow> t0 \<le> clock w \<longrightarrow> t0 < t')))
   \<and> (truthy conversationId \<longrightarrow> faults w = None # Some e # rest \<longrightarrow>
        fst (sendMessage w senderId senderName senderRole content conversationId replyTo prio)
          = Inr (newId (map fst (affiliateMessages w)))
        \<and> conversations
             (snd (sendMessage w senderId senderName senderRole content conversationId replyTo prio))
           = conversations w)"
proof (intro conjI impI)
  assume f: "faults w = []"
    and ex: "truthy conversationId \<longrightarrow> map_of (conversations w) (the conversationId) \<noteq> None"
  let ?mk = "\<lambda>cid now.
       \<lparr>m_senderId = senderId, m_senderName = senderName, m_senderRole = senderRole,
        m_content = content, m_timestamp = Some now, m_conversationId = cid,
        m_replyTo = or_null replyTo,
        m_priority = (case prio of None \<Rightarrow> Medium | Some p \<Rightarrow> p),
        m_status = ''sent'', m_createdAt = Some now\<rparr>"
  have "\<exists>cid w1 c0.
          (case (if truthy conversationId then conversationId else None) of
             Some cid \<Rightarrow> (Inr cid, w)
           | None \<Rightarrow> getOrCreateConversation w senderId senderName senderRole) = (Inr cid, w1)
        \<and> faults w1 = [] \<and> map_of (conversations w1) cid = Some c0 \<and> clock w \<le> clock w1
        \<and> (truthy conversationId \<longrightarrow> Some cid = conversationId)"
  proof (cases "truthy conversationId")
    case True
    then obtain cid where cid: "conversationId = Some cid"
      by (cases conversationId) (simp_all add: truthy_def)
    with ex True obtain c0 where "map_of (conversations w) cid = Some c0"
      by auto
    with True cid f show ?thesis by simp
  next
    case False
    with resolve_gives_conversation [OF f, of senderId senderName senderRole]
    show ?thesis by auto
  qed
  then obtain cid w1 c0 where
    first: "(case (if truthy conversationId then conversationId else None) of
             Some cid \<Rightarrow> (Inr cid, w)
           | None \<Rightarrow> getOrCreateConversation w senderId senderName senderRole) = (Inr cid, w1)"
    and f1: "faults w1 = []" and c1: "map_of (conversations w1) cid = Some c0"
    and k1: "clock w \<le> clock w1"
    and given: "truthy conversationId \<longrightarrow> Some cid = conversationId"
    by blast
  from append_then_project [OF f1 c1, of "?mk cid" content] obtain w3 c' where
    run: "andThen (addDoc affiliateMessages_ref (?mk cid) w1)
             (\<lambda>docRef w2. andThen (updateConversationLastMessage w2 cid content)
                (\<lambda>u w3. (Inr docRef, w3)))
             = (Inr (newId (map fst (affiliateMessages w1))), w3)"
    and m3: "map_of (affiliateMessages w3) (newId (map fst (affiliateMessages w1)))
             = Some (?mk cid (clock w1))"
    and c3: "map_of (conversations w3) cid = Some c'"
    and l3: "cv_lastMessage c' = take 100 content"
    and t3: "cv_lastMessageTime c' = Some (Suc (clock w1))"
    by blast
  let ?mid = "newId (map fst (affiliateMessages w1))"
  have call: "sendMessage w senderId senderName senderRole content conversationId replyTo prio
                = (Inr ?mid, w3)"
    unfolding sendMessage_def
    by (simp only: first andThen_Inr run catch_rethrow_Inr)
  have later: "clock w < Suc (clock w1)"
    using k1 by simp
  have "map_of (affiliateMessages w3) ?mid = Some (?mk cid (clock w1))
        \<and> m_content (?mk cid (clock w1)) = content
        \<and> (truthy conversationId \<longrightarrow> Some (m_conversationId (?mk cid (clock w1))) = conversationId)
        \<and> map_of (conversations w3) (m_conversationId (?mk cid (clock w1))) = Some c'
        \<and> cv_lastMessage c' = take 100 content
        \<and> cv_lastMessageTime c' = Some (Suc (clock w1)) \<and> clock w < Suc (clock w1)
        \<and> (\<forall>c0 t0. map_of (conversations w) (m_conversationId (?mk cid (clock w1))) = Some c0 \<longrightarrow>
               cv_lastMessageTime c0 = Some t0 \<longrightarrow> t0 \<le> clock w \<longrightarrow> t0 < Suc (clock w1))"
    using m3 c3 l3 t3 later given by simp
  with call show "\<exists>mid w' msg c' t'.
          sendMessage w senderId senderName senderRole content conversationId replyTo prio
            = (Inr mid, w')
        \<and> map_of (affiliateMessages w') mid = Some msg \<and> m_content msg = content
        \<and> (truthy conversationId \<longrightarrow> Some (m_conversationId msg) = conversationId)
        \<and> map_of (conversations w') (m_conversationId msg) = Some c'
        \<and> cv_lastMessage c' = take 100 content
        \<and> cv_lastMessageTime c' = Some t' \<and> clock w < t'
        \<and> (\<forall>c0 t0. map_of (conversations w) (m_conversationId msg) = Some c0 \<longrightarrow>
               cv_lastMessageTime c0 = Some t0 \<longrightarrow> t0 \<le> clock w \<longrightarrow> t0 < t')"
    by blast
next
  assume t: "truthy conversationId" and f: "faults w = None # Some e # rest"
  then obtain cid where cid: "conversationId = Some cid"
    by (cases conversationId) (simp_all add: truthy_def)
  show "fst (sendMessage w senderId senderName senderRole content conversationId replyTo prio)
          = Inr (newId (map fst (affiliateMessages w)))"
    using t f cid
    by (simp add: sendMessage_def updateConversationLastMessage_def call_defs ref_defs Let_def)
  show "conversations
          (snd (sendMessage w senderId senderName senderRole content conversationId replyTo prio))
        = conversations w"
    using t f cid
    by (simp add: sendMessage_def updateConversationLastMessage_def call_defs ref_defs Let_def)
qed
theorem append_updates_projection_witness:
  "faults world_chat = [] \<and> truthy (Some ''c1'')
   \<and> map_of (conversations world_chat) ''c1'' \<noteq> None
   \<and> (\<exists>mid w' c' t'.
          sendMessage world_chat ''u1'' ''Alice'' Affiliate ''hello'' (Some ''c1'') None None
            = (Inr mid, w')
        \<and> map_of (conversations w') ''c1'' = Some c' \<and> cv_lastMessage c' = ''hello''
        \<and> cv_lastMessageTime c' = Some t' \<and> 4 < t')
   \<and> faults (world_chat\<lparr>faults := [None, Some unavailable]\<rparr>) = [None, Some unavailable]
   \<and> conversations (snd (sendMessage (world_chat\<lparr>faults := [None, Some unavailable]\<rparr>)
          ''u1'' ''Alice'' Affiliate ''hello'' (Some ''c1'') None None))
       = conversations world_chat"
proof -
  let ?cid = "Some ''c1''"
  let ?wf = "world_chat\<lparr>faults := [None, Some unavailable]\<rparr>"
  have f: "faults world_chat = []" and t: "truthy ?cid"
    and m: "map_of (conversations world_chat) ''c1'' \<noteq> None"
    and k: "clock world_chat = 7" and h: "take 100 ''hello'' = ''hello''"
    and ff: "faults ?wf = None # Some unavailable # []"
    and cf: "conversations ?wf = conversations world_chat"
    by code_simp+
  note inst = append_updates_projection
    [where conversationId = ?cid and senderId = "''u1''" and senderName = "''Alice''"
       and senderRole = Affiliate and content = "''hello''" and replyTo = None and prio = None]
  have m': "truthy ?cid \<longrightarrow> map_of (conversations world_chat) (the ?cid) \<noteq> None"
    using m by simp
  note first = inst [where w = world_chat, THEN conjunct1, THEN mp, OF f, THEN mp, OF m']
  from first have a: "\<exists>mid w' c' t'.
          sendMessage world_chat ''u1'' ''Alice'' Affiliate ''hello'' ?cid None None = (Inr mid, w')
        \<and> map_of (conversations w') ''c1'' = Some c' \<and> cv_lastMessage c' = ''hello''
        \<and> cv_lastMessageTime c' = Some t' \<and> 4 < t'"
  proof (elim exE conjE)
    fix mid w' msg c' t'
    assume s: "sendMessage world_chat ''u1'' ''Alice'' Affiliate ''hello'' ?cid None None = (Inr mid, w')"
      and g: "truthy ?cid \<longrightarrow> Some (m_conversationId msg) = ?cid"
      and c: "map_of (conversations w') (m_conversationId msg) = Some c'"
      and l: "cv_lastMessage c' = take 100 ''hello''"
      and lt: "cv_lastMessageTime c' = Some t'" and ck: "clock world_chat < t'"
    from g t have "m_conversationId msg = ''c1''" by simp
    with c have c': "map_of (conversations w') ''c1'' = Some c'" by simp
    from l h have l': "cv_lastMessage c' = ''hello''" by simp
    from ck k have k': "4 < t'" by simp
    show ?thesis
      by (rule exI [of _ mid], rule exI [of _ w'], rule exI [of _ c'], rule exI [of _ t'])
        (intro conjI s c' l' lt k')
  qed
  note second = inst [where w = ?wf and e = unavailable and rest = "[]", THEN conjunct2,
      THEN mp, OF t, THEN mp, OF ff, THEN conjunct2]
  have b: "conversations (snd (sendMessage ?wf ''u1'' ''Alice'' Affiliate ''hello'' ?cid None None))
             = conversations world_chat"
    using second cf by simp
  have ff': "faults ?wf = [None, Some unavailable]"
    using ff by simp
  show ?thesis
    by (intro conjI f t m a ff' b)
qed

subsection \<open>Queries and the in-memory sort\<close>

lemma mset_insertBy: "mset (insertBy cmp x xs) = add_mset x (mset xs)"
  by (induction xs) auto

lemma mset_js_sort: "mset (js_sort cmp xs) = mset xs"
  unfolding js_sort_def by (induction xs) (auto simp: mset_insertBy)

lemma set_js_sort: "set (js_sort cmp xs) = set xs"
  by (metis mset_js_sort set_mset_mset)

lemma set_map_filter: "set (List.map_filter g xs) = {y. \<exists>x \<in> set xs. g x = Some y}"
  by (induction xs) (auto simp: List.map_filter_simps split: option.splits)

lemma set_ordered_desc:
  "set (ordered_desc field P c) = {(i, d). (i, d) \<in> set c \<and> P (i, d) \<and> field d \<noteq> None}"
  unfolding ordered_desc_def
  by (auto simp: set_map_filter image_iff split: prod.splits)

subsection \<open>Submitted withdrawal requests as the read paths report them\<close>

lemma processWithdrawalDocs_member:
  assumes "(i, d) \<in> set docs"
  shows "\<exists>r \<in> set (processWithdrawalDocs tdy docs).
           wv_id r = i \<and> wv_status r = or_str (w_status d) ''Pending''
         \<and> wv_w8benStatus r = or_str (w_w8benStatus d) ''not_required''"
  using assms by (induction docs) (auto simp: processWithdrawalDocs_def)

lemma reports_processWithdrawalDocs:
  assumes "(i, d) \<in> set docs" and "w_status d = Some ''Pending''" and "w_w8benStatus d = None"
  shows "reports (processWithdrawalDocs tdy docs) i ''Pending'' ''not_required''"
proof -
  from processWithdrawalDocs_member [OF assms(1), of tdy] obtain r where
    "r \<in> set (processWithdrawalDocs tdy docs)" "wv_id r = i"
    "wv_status r = or_str (w_status d) ''Pending''"
    "wv_w8benStatus r = or_str (w_w8benStatus d) ''not_required''"
    by blast
  with assms(2,3) show ?thesis
    by (auto simp: reports_def list_ex_iff or_str_def)
qed

lemma reports_js_sort: "reports (js_sort cmp rs) i st w8 = reports rs i st w8"
  by (simp add: reports_def list_ex_iff set_js_sort)

lemma getWithdrawalRequests_reports:
  assumes "(i, d) \<in> set (withdrawalRequests w1)" and "w_status d = Some ''Pending''"
    and "w_w8benStatus d = None" and "w_date d \<noteq> None" and "wr_for_investor q (i, d)"
    and "faults w1 = [] \<or> (\<exists>e. faults w1 = [Some e])"
  shows "\<exists>rs. fst (getWithdrawalRequests gt w1 q) = Inr rs \<and> reports rs i ''Pending'' ''not_required''"
proof -
  have ord: "(i, d) \<in> set (ordered_desc w_date (wr_for_investor q) (withdrawalRequests w1))"
    using assms(1,4,5) by (simp add: set_ordered_desc)
  have unord: "(i, d) \<in> set (unordered (wr_for_investor q) (withdrawalRequests w1))"
    using assms(1,5) by (simp add: set_unordered)
  from assms(6) show ?thesis
  proof
    assume "faults w1 = []"
    then have "fst (getWithdrawalRequests gt w1 q) =
        Inr (processWithdrawalDocs (today w1)
               (ordered_desc w_date (wr_for_investor q) (withdrawalRequests w1)))"
      by (simp add: getWithdrawalRequests_def call_defs withdrawalRequests_ref_def)
    with reports_processWithdrawalDocs [OF ord assms(2,3)] show ?thesis
      by simp
  next
    assume "\<exists>e. faults w1 = [Some e]"
    then obtain e where "faults w1 = [Some e]" ..
    then have "fst (getWithdrawalRequests gt w1 q) =
        Inr (js_sort (date_desc gt wv_date) (processWithdrawalDocs (today w1)
               (unordered (wr_for_investor q) (withdrawalRequests w1))))"
      by (simp add: getWithdrawalRequests_def call_defs withdrawalRequests_ref_def)
    with reports_processWithdrawalDocs [OF unord assms(2,3)] show ?thesis
      by (simp add: reports_js_sort)
  qed
qed

lemma map_of_newId: "map_of c (newId (map fst c)) = None"
  using newId_fresh [of "map fst c"] by (simp add: map_of_eq_None_iff)

lemma setDoc_withdrawal_effect:
  assumes "setDoc withdrawalRequests_ref i mk w = (Inr (), w')"
  shows "map_of (withdrawalRequests w') i = Some (mk (clock w))"
  using assms
  by (auto simp: setDoc_def next_outcome_def tick_def withdrawalRequests_ref_def
      map_of_replace_doc map_add_def
      simp del: map_of_eq_None_iff
      split: list.splits option.splits)

lemma addDoc_withdrawal_effect:
  assumes "addDoc withdrawalRequests_ref mk w = (Inr i, w')"
  shows "i = newId (map fst (withdrawalRequests w))
         \<and> map_of (withdrawalRequests w') i = Some (mk (clock w))"
  using assms
  by (auto simp: addDoc_def next_outcome_def tick_def withdrawalRequests_ref_def Let_def
      map_add_def map_of_newId
      simp del: map_of_eq_None_iff
      split: list.splits option.splits)

lemma catch_rethrow_InrD: "catch_rethrow p m = (Inr v, w') \<Longrightarrow> m = (Inr v, w')"
  by (cases m) (auto simp: catch_rethrow_def split: sum.splits)

lemma andThen_InrD:
  "andThen m k = (Inr v, w') \<Longrightarrow> \<exists>x w1. m = (Inr x, w1) \<and> k x w1 = (Inr v, w')"
  by (cases m) (auto simp: andThen_def split: sum.splits)

lemma addWithdrawalRequest_effect:
  assumes "addWithdrawalRequest w investorId investorName amount withdrawalId = (Inr (), w')"
  shows "\<exists>i d. map_of (withdrawalRequests w') i = Some d
         \<and> (truthy withdrawalId \<longrightarrow> Some i = withdrawalId)
         \<and> (\<not> truthy withdrawalId \<longrightarrow> i = newId (map fst (withdrawalRequests w)))
         \<and> w_investorId d = investorId \<and> w_investorName d = investorName
         \<and> w_amount d = amount \<and> w_date d = Some (today w)
         \<and> w_status d = Some ''Pending'' \<and> w_w8benStatus d = None"
proof -
  let ?docData = "\<lambda>now.
     \<lparr>w_investorId = investorId, w_investorName = investorName, w_amount = amount,
      w_date = Some (today w), w_status = Some ''Pending'', w_approvalDate = None,
      w_processedBy = None, w_processedAt = None, w_reason = None,
      w_w8benStatus = None, w_w8benApprovedAt = None,
      w_w8benRejectionReason = None, w_createdAt = Some now, w_updatedAt = None\<rparr>"
  have "\<exists>i. map_of (withdrawalRequests w') i = Some (?docData (clock w))
          \<and> (truthy withdrawalId \<longrightarrow> Some i = withdrawalId)
          \<and> (\<not> truthy withdrawalId \<longrightarrow> i = newId (map fst (withdrawalRequests w)))"
  proof (cases "truthy withdrawalId")
    case True
    then obtain wid where wid: "withdrawalId = Some wid"
      by (cases withdrawalId) (simp_all add: truthy_def)
    from assms True wid have "setDoc withdrawalRequests_ref wid ?docData w = (Inr (), w')"
      by (simp add: addWithdrawalRequest_def catch_rethrow_InrD)
    from setDoc_withdrawal_effect [OF this] True wid show ?thesis
      by simp
  next
    case False
    with assms have "andThen (addDoc withdrawalRequests_ref ?docData w)
                       (\<lambda>docRef w1. (Inr (), w1)) = (Inr (), w')"
      by (simp add: addWithdrawalRequest_def catch_rethrow_InrD)
    from andThen_InrD [OF this] obtain i where
      "addDoc withdrawalRequests_ref ?docData w = (Inr i, w')"
      by auto
    from addDoc_withdrawal_effect [OF this]
    have "i = newId (map fst (withdrawalRequests w))"
      and "map_of (withdrawalRequests w') i = Some (?docData (clock w))"
      by blast+
    with False show ?thesis
      by (intro exI [of _ i]) simp
  qed
  then obtain i where
    "map_of (withdrawalRequests w') i = Some (?docData (clock w))"
    "truthy withdrawalId \<longrightarrow> Some i = withdrawalId"
    "\<not> truthy withdrawalId \<longrightarrow> i = newId (map fst (withdrawalRequests w))"
    by blast
  then show ?thesis
    by (intro exI [of _ i] exI [of _ "?docData (clock w)"]) simp
qed
text \<open>
  C10. \<open>addWithdrawalRequest\<close> succeeds when no store call fails; when it succeeds, the
  request document it wrote (under the given id, or else a new one) has status \<open>Pending\<close>
  and no \<open>w8benStatus\<close> field. Every read path goes through \<open>processWithdrawalDocs\<close>,
  which puts \<open>not_required\<close> for an absent \<open>w8benStatus\<close> and \<open>Pending\<close> for an absent
  status. So a read of the requests right after the submission, of all requests or of
  the investor's, by the ordered query or by its fallback, and the live subscription's
  snapshot, report the request with status \<open>Pending\<close> and tax-form status
  \<open>not_required\<close>.
\<close>

theorem submitted_request_reported_pending:
  "(faults w = [] \<longrightarrow>
      fst (addWithdrawalRequest w investorId investorName amount withdrawalId) = Inr ())
   \<and> (addWithdrawalRequest w investorId investorName amount withdrawalId = (Inr (), w') \<longrightarrow>
        (\<exists>i d. map_of (withdrawalRequests w') i = Some d
           \<and> (truthy withdrawalId \<longrightarrow> Some i = withdrawalId)
           \<and> w_status d = Some ''Pending'' \<and> w_w8benStatus d = None
           \<and> (\<forall>gt q fs. (q = None \<or> q = Some investorId) \<longrightarrow>
                  (fs = [] \<or> (\<exists>e. fs = [Some e])) \<longrightarrow>
                  (\<exists>rs. fst (getWithdrawalRequests gt (w'\<lparr>faults := fs\<rparr>) q) = Inr rs
                        \<and> reports rs i ''Pending'' ''not_required''))
           \<and> (\<forall>gt tdy q. (q = None \<or> q = Some investorId) \<longrightarrow>
                  (\<exists>rs. subscribeToWithdrawalRequests gt tdy
                          (Snapshot (unordered (wr_for_investor q) (withdrawalRequests w'))) = [rs]
                        \<and> reports rs i ''Pending'' ''not_required''))))
   \<and> (\<forall>tdy docs.
          map wv_w8benStatus (processWithdrawalDocs tdy docs)
            = map (\<lambda>(i, d). or_str (w_w8benStatus d) ''not_required'') docs
        \<and> map wv_status (processWithdrawalDocs tdy docs)
            = map (\<lambda>(i, d). or_str (w_status d) ''Pending'') docs)
   \<and> or_str None ''not_required'' = ''not_required'' \<and> or_str None ''Pending'' = ''Pending''"
proof (intro conjI impI allI)
  assume "faults w = []"
  then show "fst (addWithdrawalRequest w investorId investorName amount withdrawalId) = Inr ()"
    by (simp add: addWithdrawalRequest_def call_defs withdrawalRequests_ref_def Let_def
        split: option.splits)
next
  assume "addWithdrawalRequest w investorId investorName amount withdrawalId = (Inr (), w')"
  from addWithdrawalRequest_effect [OF this] obtain i d where
    look: "map_of (withdrawalRequests w') i = Some d"
    and given: "truthy withdrawalId \<longrightarrow> Some i = withdrawalId"
    and inv: "w_investorId d = investorId" and date: "w_date d = Some (today w)"
    and st: "w_status d = Some ''Pending''" and w8: "w_w8benStatus d = None"
    by blast
  from look have mem: "(i, d) \<in> set (withdrawalRequests w')"
    by (rule map_of_SomeD)
  have dated: "w_date d \<noteq> None"
    using date by simp
  have match: "wr_for_investor q (i, d)" if "q = None \<or> q = Some investorId" for q
    using that inv by (auto simp: wr_for_investor_def truthy_def)
  have reads: "\<exists>rs. fst (getWithdrawalRequests gt (w'\<lparr>faults := fs\<rparr>) q) = Inr rs
                  \<and> reports rs i ''Pending'' ''not_required''"
    if "q = None \<or> q = Some investorId" and "fs = [] \<or> (\<exists>e. fs = [Some e])" for gt q fs
  proof (rule getWithdrawalRequests_reports [OF _ st w8 dated match [OF that(1)]])
    show "(i, d) \<in> set (withdrawalRequests (w'\<lparr>faults := fs\<rparr>))"
      using mem by simp
    show "faults (w'\<lparr>faults := fs\<rparr>) = [] \<or> (\<exists>e. faults (w'\<lparr>faults := fs\<rparr>) = [Some e])"
      using that(2) by simp
  qed
  have live: "\<exists>rs. subscribeToWithdrawalRequests gt tdy
                 (Snapshot (unordered (wr_for_investor q) (withdrawalRequests w'))) = [rs]
               \<and> reports rs i ''Pending'' ''not_required''"
    if "q = None \<or> q = Some investorId" for gt tdy q
  proof -
    have "(i, d) \<in> set (unordered (wr_for_investor q) (withdrawalRequests w'))"
      using mem match [OF that] by (simp add: set_unordered)
    from reports_processWithdrawalDocs [OF this st w8, of tdy] show ?thesis
      by (simp add: subscribeToWithdrawalRequests_def reports_js_sort)
  qed
  show "\<exists>i d. map_of (withdrawalRequests w') i = Some d
           \<and> (truthy withdrawalId \<longrightarrow> Some i = withdrawalId)
           \<and> w_status d = Some ''Pending'' \<and> w_w8benStatus d = None
           \<and> (\<forall>gt q fs. (q = None \<or> q = Some investorId) \<longrightarrow>
                  (fs = [] \<or> (\<exists>e. fs = [Some e])) \<longrightarrow>
                  (\<exists>rs. fst (getWithdrawalRequests gt (w'\<lparr>faults := fs\<rparr>) q) = Inr rs
                        \<and> reports rs i ''Pending'' ''not_required''))
           \<and> (\<forall>gt tdy q. (q = None \<or> q = Some investorId) \<longrightarrow>
                  (\<exists>rs. subscribeToWithdrawalRequests gt tdy
                          (Snapshot (unordered (wr_for_investor q) (withdrawalRequests w'))) = [rs]
                        \<and> reports rs i ''Pending'' ''not_required''))"
    using look given st w8 reads live
    by (intro exI [of _ i] exI [of _ d] conjI allI impI) blast+
next
  fix tdy and docs :: "wr_doc coll"
  show "map wv_w8benStatus (processWithdrawalDocs tdy docs)
          = map (\<lambda>(i, d). or_str (w_w8benStatus d) ''not_required'') docs"
    by (induction docs) (auto simp: processWithdrawalDocs_def)
  show "map wv_status (processWithdrawalDocs tdy docs)
          = map (\<lambda>(i, d). or_str (w_status d) ''Pending'') docs"
    by (induction docs) (auto simp: processWithdrawalDocs_def)
next
  show "or_str None ''not_required'' = ''not_required''"
    by (simp add: or_str_def)
  show "or_str None ''Pending'' = ''Pending''"
    by (simp add: or_str_def)
qed

theorem submitted_request_reported_pending_witness:
  "faults empty_world = []
   \<and> fst (addWithdrawalRequest empty_world ''u1'' ''Alice'' 1000 None) = Inr ()
   \<and> (\<exists>i d rs rs'.
         map_of (withdrawalRequests (snd (addWithdrawalRequest empty_world ''u1'' ''Alice'' 1000 None))) i
           = Some d
       \<and> w_w8benStatus d = None
       \<and> fst (getWithdrawalRequests iso_getTime
                 ((snd (addWithdrawalRequest empty_world ''u1'' ''Alice'' 1000 None))\<lparr>faults := []\<rparr>)
                 (Some ''u1'')) = Inr rs
       \<and> reports rs i ''Pending'' ''not_required''
       \<and> fst (getWithdrawalRequests iso_getTime
                 ((snd (addWithdrawalRequest empty_world ''u1'' ''Alice'' 1000 None))
                    \<lparr>faults := [Some index_missing]\<rparr>)
                 None) = Inr rs'
       \<and> reports rs' i ''Pending'' ''not_required'')"
proof -
  let ?r = "addWithdrawalRequest empty_world ''u1'' ''Alice'' 1000 None"
  have f: "faults empty_world = []"
    by code_simp
  note inst = submitted_request_reported_pending
    [where w = empty_world and investorId = "''u1''" and investorName = "''Alice''"
       and amount = 1000 and withdrawalId = None and w' = "snd ?r"]
  note ok = inst [THEN conjunct1, THEN mp, OF f]
  have run: "?r = (Inr (), snd ?r)"
    using ok by (simp only: prod_eq_iff fst_conv snd_conv simp_thms)
  note ex = inst [THEN conjunct2, THEN conjunct1, THEN mp, OF run]
  from ex obtain i where "\<exists>d. map_of (withdrawalRequests (snd ?r)) i = Some d
           \<and> (truthy None \<longrightarrow> Some i = None)
           \<and> w_status d = Some ''Pending'' \<and> w_w8benStatus d = None
           \<and> (\<forall>gt q fs. (q = None \<or> q = Some ''u1'') \<longrightarrow>
                  (fs = [] \<or> (\<exists>e. fs = [Some e])) \<longrightarrow>
                  (\<exists>rs. fst (getWithdrawalRequests gt ((snd ?r)\<lparr>faults := fs\<rparr>) q) = Inr rs
                        \<and> reports rs i ''Pending'' ''not_required''))
           \<and> (\<forall>gt tdy q. (q = None \<or> q = Some ''u1'') \<longrightarrow>
                  (\<exists>rs. subscribeToWithdrawalRequests gt tdy
                          (Snapshot (unordered (wr_for_investor q) (withdrawalRequests (snd ?r)))) = [rs]
                        \<and> reports rs i ''Pending'' ''not_required''))" ..
  then obtain d where all: "map_of (withdrawalRequests (snd ?r)) i = Some d
           \<and> (truthy None \<longrightarrow> Some i = None)
           \<and> w_status d = Some ''Pending'' \<and> w_w8benStatus d = None
           \<and> (\<forall>gt q fs. (q = None \<or> q = Some ''u1'') \<longrightarrow>
                  (fs = [] \<or> (\<exists>e. fs = [Some e])) \<longrightarrow>
                  (\<exists>rs. fst (getWithdrawalRequests gt ((snd ?r)\<lparr>faults := fs\<rparr>) q) = Inr rs
                        \<and> reports rs i ''Pending'' ''not_required''))
           \<and> (\<forall>gt tdy q. (q = None \<or> q = Some ''u1'') \<longrightarrow>
                  (\<exists>rs. subscribeToWithdrawalRequests gt tdy
                          (Snapshot (unordered (wr_for_investor q) (withdrawalRequests (snd ?r)))) = [rs]
                        \<and> reports rs i ''Pending'' ''not_required''))" ..
  note look = all [THEN conjunct1]
  note w8 = all [THEN conjunct2, THEN conjunct2, THEN conjunct2, THEN conjunct1]
  note reads = all [THEN conjunct2, THEN conjunct2, THEN conjunct2, THEN conjunct2,
      THEN conjunct1, THEN spec, THEN spec, THEN spec, THEN mp, THEN mp]
  have q1: "Some ''u1'' = None \<or> Some ''u1'' = Some ''u1''" and q2: "None = None \<or> None = Some ''u1''"
    and f1: "[] = [] \<or> (\<exists>e. [] = [Some e])"
    and f2: "[Some index_missing] = [] \<or> (\<exists>e. [Some index_missing] = [Some e])"
    by simp_all
  from reads [of "Some ''u1''" "[]" iso_getTime, OF q1 f1] obtain rs where
    ab: "fst (getWithdrawalRequests iso_getTime ((snd ?r)\<lparr>faults := []\<rparr>) (Some ''u1'')) = Inr rs
       \<and> reports rs i ''Pending'' ''not_required''" ..
  from reads [of None "[Some index_missing]" iso_getTime, OF q2 f2] obtain rs' where
    cd: "fst (getWithdrawalRequests iso_getTime ((snd ?r)\<lparr>faults := [Some index_missing]\<rparr>) None)
          = Inr rs'
       \<and> reports rs' i ''Pending'' ''not_required''" ..
  show ?thesis
    by (intro conjI f ok exI [of _ i] exI [of _ d] exI [of _ rs] exI [of _ rs'] look w8
        ab [THEN conjunct1] ab [THEN conjunct2] cd [THEN conjunct1] cd [THEN conjunct2])
qed

subsection \<open>The fallback of the transaction query\<close>

lemma set_insertBy: "set (insertBy cmp x ys) = insert x (set ys)"
  by (metis mset_insertBy set_mset_add_mset_insert set_mset_mset)

lemma js_sort_Cons: "js_sort cmp (x # xs) = insertBy cmp x (js_sort cmp xs)"
  by (simp add: js_sort_def)

lemma sorted_insertBy:
  assumes emb: "\<And>a b. a \<in> insert x (set ys) \<Longrightarrow> b \<in> insert x (set ys) \<Longrightarrow>
                  \<exists>p q. gt (k a) = Some p \<and> gt (k b) = Some q \<and> ((k a < k b) = (p < q))"
    and srt: "sorted_wrt (\<lambda>a b. k b \<le> k a) ys"
  shows "sorted_wrt (\<lambda>a b. k b \<le> k a) (insertBy (date_desc gt k) x ys)"
  using assms
proof (induction ys)
  case Nil
  then show ?case by simp
next
  case (Cons y ys)
  from Cons.prems(1) [of x y] obtain p q where
    pq: "gt (k x) = Some p" "gt (k y) = Some q" "(k x < k y) = (p < q)"
    by auto
  have cmp: "date_desc gt k x y = Some (q - p)"
    using pq by (simp add: date_desc_def)
  show ?case
  proof (cases "q - p \<le> 0")
    case True
    then have yx: "k y \<le> k x"
      using pq(3) by (simp add: not_less [symmetric])
    have "k z \<le> k x" if "z \<in> set ys" for z
    proof -
      from Cons.prems(2) that have "k z \<le> k y" by simp
      from this yx show ?thesis by (rule order_trans)
    qed
    with yx Cons.prems(2) True cmp show ?thesis
      by simp
  next
    case False
    then have xy: "k x \<le> k y"
      using pq(3) by (simp add: less_imp_le)
    have tail: "sorted_wrt (\<lambda>a b. k b \<le> k a) (insertBy (date_desc gt k) x ys)"
    proof (rule Cons.IH)
      show "\<exists>p q. gt (k a) = Some p \<and> gt (k b) = Some q \<and> ((k a < k b) = (p < q))"
        if "a \<in> insert x (set ys)" "b \<in> insert x (set ys)" for a b
        using that Cons.prems(1) [of a b] by auto
      show "sorted_wrt (\<lambda>a b. k b \<le> k a) ys"
        using Cons.prems(2) by simp
    qed
    have "k z \<le> k y" if "z \<in> set (insertBy (date_desc gt k) x ys)" for z
      using that xy Cons.prems(2) by (auto simp: set_insertBy)
    with tail False cmp show ?thesis
      by simp
  qed
qed

lemma sorted_js_sort:
  assumes "\<And>a b. a \<in> set xs \<Longrightarrow> b \<in> set xs \<Longrightarrow>
             \<exists>p q. gt (k a) = Some p \<and> gt (k b) = Some q \<and> ((k a < k b) = (p < q))"
  shows "sorted_wrt (\<lambda>a b. k b \<le> k a) (js_sort (date_desc gt k) xs)"
  using assms
proof (induction xs)
  case Nil
  then show ?case by (simp add: js_sort_def)
next
  case (Cons x xs)
  have "sorted_wrt (\<lambda>a b. k b \<le> k a) (js_sort (date_desc gt k) xs)"
  proof (rule Cons.IH)
    show "\<exists>p q. gt (k a) = Some p \<and> gt (k b) = Some q \<and> ((k a < k b) = (p < q))"
      if "a \<in> set xs" "b \<in> set xs" for a b
      using that by (intro Cons.prems) simp_all
  qed
  moreover have "\<exists>p q. gt (k a) = Some p \<and> gt (k b) = Some q \<and> ((k a < k b) = (p < q))"
    if "a \<in> insert x (set (js_sort (date_desc gt k) xs))"
      "b \<in> insert x (set (js_sort (date_desc gt k) xs))" for a b
    using that by (intro Cons.prems) (simp_all add: set_js_sort)
  ultimately show ?case
    unfolding js_sort_Cons by (intro sorted_insertBy) auto
qed

lemma descending_unique:
  fixes k :: "'a \<Rightarrow> 'b::linorder"
  assumes "mset xs = mset ys"
    and "sorted_wrt (\<lambda>a b. k b \<le> k a) xs" and "sorted_wrt (\<lambda>a b. k b \<le> k a) ys"
    and "distinct (map k xs)"
  shows "xs = ys"
proof -
  have "mset (map k xs) = mset (map k ys)"
    using assms(1) by simp
  then have dy: "distinct (map k ys)"
    using assms(4) mset_eq_imp_distinct_iff by blast
  have sets: "set xs = set ys"
    using assms(1) by (rule mset_eq_setD)
  have inj: "inj_on k (set (rev xs) \<union> set (rev ys))"
    using assms(4) sets by (simp add: distinct_map)
  have sx: "sorted (map k (rev xs))" and sy: "sorted (map k (rev ys))"
    using assms(2,3) by (simp_all add: rev_map [symmetric] sorted_wrt_map sorted_wrt_rev)
  have "rev xs = rev ys"
    using inj sx _ sy
  proof (rule map_sorted_distinct_set_unique)
    show "distinct (map k (rev xs))" using assms(4) by (simp add: distinct_map)
    show "distinct (map k (rev ys))" using dy by (simp add: distinct_map)
    show "set (rev xs) = set (rev ys)" using sets by simp
  qed
  then show ?thesis by simp
qed

lemma map_filter_all_Some:
  assumes "\<And>x. x \<in> set xs \<Longrightarrow> g x = Some (h x)"
  shows "List.map_filter g xs = map h xs"
  using assms by (induction xs) (simp_all add: List.map_filter_simps)

lemma ordered_desc_keyed:
  assumes "\<And>i d. (i, d) \<in> set c \<Longrightarrow> P (i, d) \<Longrightarrow> field d = Some (k (i, d))"
  shows "mset (ordered_desc field P c) = mset (filter P c)"
    and "sorted_wrt (\<lambda>a b. k b \<le> k a) (ordered_desc field P c)"
proof -
  let ?h = "\<lambda>x. ((k x, fst x), x)"
  have "List.map_filter (\<lambda>(i, d). map_option (\<lambda>key. ((key, i), (i, d))) (field d)) (filter P c)
          = map ?h (filter P c)"
    by (rule map_filter_all_Some) (auto simp: assms)
  then have od: "ordered_desc field P c = map snd (rev (sort_key fst (map ?h (filter P c))))"
    by (simp add: ordered_desc_def)
  show "mset (ordered_desc field P c) = mset (filter P c)"
    unfolding od by (simp add: image_mset.compositionality comp_def)
  let ?s = "sort_key fst (map ?h (filter P c))"
  have "sorted (map fst ?s)"
    by (rule sorted_sort_key)
  then have lex: "sorted_wrt (\<lambda>a b. fst (fst a) \<le> fst (fst b)) ?s"
    unfolding sorted_wrt_map
    by (rule sorted_wrt_mono_rel [rotated]) (auto simp: less_eq_prod_def)
  have key: "fst (fst y) = k (snd y)" if "y \<in> set ?s" for y
    using that by auto
  have "sorted_wrt (\<lambda>a b. k (snd a) \<le> k (snd b)) ?s"
  proof (rule sorted_wrt_mono_rel [OF _ lex])
    fix a b
    assume "a \<in> set ?s" and "b \<in> set ?s" and "fst (fst a) \<le> fst (fst b)"
    then show "k (snd a) \<le> k (snd b)"
      using key [of a] key [of b] by simp
  qed
  then show "sorted_wrt (\<lambda>a b. k b \<le> k a) (ordered_desc field P c)"
    unfolding od by (simp add: rev_map [symmetric] sorted_wrt_map sorted_wrt_rev)
qed
lemma parse_in_orderD:
  assumes "parse_in_order gt ds" and "a \<in> set ds" and "b \<in> set ds"
  shows "\<exists>p q. gt a = Some p \<and> gt b = Some q \<and> ((a < b) = (p < q))"
proof -
  from assms have "case (gt a, gt b) of (Some x, Some y) \<Rightarrow> (a < b) = (x < y) | _ \<Rightarrow> False"
    unfolding parse_in_order_def list_all_iff by blast
  then show ?thesis
    by (cases "gt a"; cases "gt b") simp_all
qed

text \<open>
  C4 (as stated, refuted). The claim says that the fallback returns the rows in the
  same order as the indexed query for every collection. For two transactions of one
  investor with the same date, the indexed query lists them by descending id, and the
  fallback, a stable sort of the rows fetched by ascending id, keeps them by ascending id.
\<close>

theorem fallback_differs_on_equal_dates:
  "is_index_error index_missing
   \<and> ids_of (fst (getTransactions iso_getTime
                (world_same_day\<lparr>faults := [Some index_missing]\<rparr>) (Some ''u1''))) = [''a'', ''b'']
   \<and> ids_of (fst (getTransactions iso_getTime world_same_day (Some ''u1''))) = [''b'', ''a'']
   \<and> fst (getTransactions iso_getTime
                (world_same_day\<lparr>faults := [Some index_missing]\<rparr>) (Some ''u1''))
       \<noteq> fst (getTransactions iso_getTime world_same_day (Some ''u1''))"
  by code_simp

text \<open>
  C4 (amended). When the ordered query fails for a missing index and every matched
  transaction has a non-empty date that parses, parsing keeping the order of the date
  strings, the fallback returns exactly the matched rows, sorted descending by date;
  and when moreover no two matched transactions have the same date, that result is
  identical, in content and in order, to the result of the indexed query on the same data.
\<close>

theorem fallback_matches_indexed:
  assumes idx: "is_index_error e"
    and dt: "dated (matched investorId (transactions w))"
    and po: "parse_in_order gt (dates_of (matched investorId (transactions w)))"
  shows "\<exists>ts. fst (getTransactions gt (w\<lparr>faults := [Some e]\<rparr>) investorId) = Inr ts
           \<and> mset ts = mset (processTransactionDocs (today w) (matched investorId (transactions w)))
           \<and> sorted_wrt (\<lambda>a b. tx_date b \<le> tx_date a) ts
           \<and> (distinct (dates_of (matched investorId (transactions w))) \<longrightarrow>
                fst (getTransactions gt (w\<lparr>faults := []\<rparr>) investorId) = Inr ts)"
proof -
  define P where "P =
    (case (if truthy investorId then investorId else None) of
       Some iid \<Rightarrow> for_investor iid | None \<Rightarrow> (\<lambda>x. True))"
  define c where "c = transactions w"
  define M where "M = matched investorId c"
  define f where "f = (\<lambda>docs. processTransactionDocs (today w) docs)"
  define \<delta> where "\<delta> = (\<lambda>(i :: doc_id, d :: txn_doc). or_str (t_date d) [])"
  have M: "M = filter P c"
    by (simp add: M_def P_def matched_def split: option.splits)
  have f_map: "f docs = map (\<lambda>x. hd (f [x])) docs" for docs
    by (induction docs) (auto simp: f_def processTransactionDocs_def)
  let ?v = "\<lambda>x. hd (f [x])"
  have fallback: "fst (getTransactions gt (w\<lparr>faults := [Some e]\<rparr>) investorId)
                    = Inr (js_sort (date_desc gt tx_date) (f (unordered P c)))"
    using idx
    by (simp add: getTransactions_def call_defs transactions_ref_def P_def c_def f_def
        split: option.splits)
  have indexed: "fst (getTransactions gt (w\<lparr>faults := []\<rparr>) investorId)
                   = Inr (f (ordered_desc t_date P c))"
    by (simp add: getTransactions_def call_defs transactions_ref_def P_def c_def f_def
        split: option.splits)
  have has_date: "t_date d = Some (\<delta> (i, d)) \<and> \<delta> (i, d) \<noteq> []" if "(i, d) \<in> set M" for i d
    using dt that
    by (auto simp: dated_def list_all_iff M_def c_def \<delta>_def or_str_def split: option.splits)
  have date_v: "tx_date (?v x) = \<delta> x" if "x \<in> set M" for x
  proof -
    obtain i d where x: "x = (i, d)" by (cases x)
    with has_date [of i d] that show ?thesis
      by (simp add: f_def processTransactionDocs_def or_str_def)
  qed
  have parses: "\<exists>p q. gt (\<delta> x) = Some p \<and> gt (\<delta> y) = Some q \<and> ((\<delta> x < \<delta> y) = (p < q))"
    if "x \<in> set M" "y \<in> set M" for x y
  proof -
    have "\<delta> x \<in> set (dates_of M)" "\<delta> y \<in> set (dates_of M)"
      using that by (auto simp: dates_of_def \<delta>_def)
    moreover have "parse_in_order gt (dates_of M)"
      using po by (simp add: M_def c_def)
    ultimately show ?thesis
      by (intro parse_in_orderD)
  qed
  let ?fb = "js_sort (date_desc gt tx_date) (f (unordered P c))"
  have set_u: "set (unordered P c) = set M"
    by (simp add: unordered_def M)
  have mset_u: "mset (unordered P c) = mset M"
    by (simp add: unordered_def M)
  have m1: "mset ?fb = mset (f M)"
    by (simp add: mset_js_sort f_map [of "unordered P c"] f_map [of M] mset_u)
  have s1: "sorted_wrt (\<lambda>a b. tx_date b \<le> tx_date a) ?fb"
  proof (rule sorted_js_sort)
    fix a b
    assume "a \<in> set (f (unordered P c))" and "b \<in> set (f (unordered P c))"
    then obtain x y where "x \<in> set M" "a = ?v x" "y \<in> set M" "b = ?v y"
      using set_u by (subst (asm) (1 2) f_map) auto
    with parses [of x y] date_v show
      "\<exists>p q. gt (tx_date a) = Some p \<and> gt (tx_date b) = Some q
             \<and> ((tx_date a < tx_date b) = (p < q))"
      by simp
  qed
  have same: "fst (getTransactions gt (w\<lparr>faults := []\<rparr>) investorId) = Inr ?fb"
    if dist: "distinct (dates_of (matched investorId (transactions w)))"
  proof -
    have keyed: "t_date d = Some (\<delta> (i, d))" if "(i, d) \<in> set c" "P (i, d)" for i d
      using that has_date [of i d] by (simp add: M)
    have m2: "mset (ordered_desc t_date P c) = mset M"
      using ordered_desc_keyed(1) [of c P t_date \<delta>] keyed by (simp add: M)
    have set_o: "set (ordered_desc t_date P c) = set M"
      using m2 by (rule mset_eq_setD)
    have s2: "sorted_wrt (\<lambda>a b. \<delta> b \<le> \<delta> a) (ordered_desc t_date P c)"
      using ordered_desc_keyed(2) [of c P t_date \<delta>] keyed by simp
    have s2': "sorted_wrt (\<lambda>a b. tx_date b \<le> tx_date a) (f (ordered_desc t_date P c))"
      unfolding f_map [of "ordered_desc t_date P c"] sorted_wrt_map
      by (rule sorted_wrt_mono_rel [OF _ s2]) (simp add: date_v set_o)
    have m2': "mset ?fb = mset (f (ordered_desc t_date P c))"
      using m1 m2 by (simp add: f_map [of "ordered_desc t_date P c"] f_map [of M])
    have "distinct (map \<delta> M)"
      using dist by (simp add: dates_of_def \<delta>_def M_def c_def)
    moreover have "map tx_date (f M) = map \<delta> M"
      by (subst f_map) (simp add: date_v)
    ultimately have "distinct (map tx_date (f M))"
      by simp
    moreover have "mset (map tx_date ?fb) = mset (map tx_date (f M))"
      using m1 by simp
    ultimately have d1: "distinct (map tx_date ?fb)"
      using mset_eq_imp_distinct_iff by blast
    have "?fb = f (ordered_desc t_date P c)"
      using m2' s1 s2' d1 by (rule descending_unique)
    with indexed show ?thesis by simp
  qed
  show ?thesis
  proof (intro exI [of _ ?fb] conjI impI)
    show "fst (getTransactions gt (w\<lparr>faults := [Some e]\<rparr>) investorId) = Inr ?fb"
      by (rule fallback)
    show "mset ?fb = mset (processTransactionDocs (today w) (matched investorId (transactions w)))"
      using m1 by (simp add: f_def M_def c_def)
    show "sorted_wrt (\<lambda>a b. tx_date b \<le> tx_date a) ?fb"
      by (rule s1)
    show "fst (getTransactions gt (w\<lparr>faults := []\<rparr>) investorId) = Inr ?fb"
      if "distinct (dates_of (matched investorId (transactions w)))"
      using that by (rule same)
  qed
qed
theorem fallback_matches_indexed_witness:
  "is_index_error index_missing
   \<and> dated (matched (Some ''u1'') (transactions world_ledger))
   \<and> parse_in_order iso_getTime (dates_of (matched (Some ''u1'') (transactions world_ledger)))
   \<and> distinct (dates_of (matched (Some ''u1'') (transactions world_ledger)))
   \<and> (\<exists>ts. fst (getTransactions iso_getTime (world_ledger\<lparr>faults := [Some index_missing]\<rparr>)
                   (Some ''u1'')) = Inr ts
          \<and> fst (getTransactions iso_getTime (world_ledger\<lparr>faults := []\<rparr>) (Some ''u1'')) = Inr ts
          \<and> map tx_date ts = [''2024-03-01'', ''2024-02-01'', ''2024-01-01''])"
proof -
  let ?q = "Some ''u1''"
  let ?M = "matched ?q (transactions world_ledger)"
  let ?fb = "fst (getTransactions iso_getTime (world_ledger\<lparr>faults := [Some index_missing]\<rparr>) ?q)"
  have i: "is_index_error index_missing" and d: "dated ?M"
    and p: "parse_in_order iso_getTime (dates_of ?M)" and u: "distinct (dates_of ?M)"
    by code_simp+
  have ev: "map tx_date (case ?fb of Inl e \<Rightarrow> [] | Inr ts \<Rightarrow> ts)
              = [''2024-03-01'', ''2024-02-01'', ''2024-01-01'']"
    by code_simp
  from fallback_matches_indexed [OF i d p] obtain ts where
    all: "?fb = Inr ts
        \<and> mset ts = mset (processTransactionDocs (today world_ledger) ?M)
        \<and> sorted_wrt (\<lambda>a b. tx_date b \<le> tx_date a) ts
        \<and> (distinct (dates_of ?M) \<longrightarrow>
             fst (getTransactions iso_getTime (world_ledger\<lparr>faults := []\<rparr>) ?q) = Inr ts)" ..
  note fb = all [THEN conjunct1]
  note ix = all [THEN conjunct2, THEN conjunct2, THEN conjunct2, THEN mp, OF u]
  have dates: "map tx_date ts = [''2024-03-01'', ''2024-02-01'', ''2024-01-01'']"
    using ev by (simp only: fb sum.case)
  show ?thesis
    by (intro conjI i d p u exI [of _ ts] fb ix dates)
qed

end
